theory Spec2Isabelle
  imports Complex_Main "HOL-Library.Multiset"
begin

section \<open>Python values used by the program\<close>

text \<open>
  Exceptions and process exits of the Python source are values of the model.
  Timestamps and durations are Python floats in the source; the model computes with
  them as exact rationals.
\<close>

datatype error = TypeError | ValueError | KeyError | IndexError | ZeroDivisionError
  | AttributeError | HttpError nat | ExceptionHistory | OtherError

text \<open>\<^verbatim>\<open>str(n)\<close> and \<^verbatim>\<open>f"{n}"\<close> for an integer: its decimal digits.\<close>

fun str_nat :: "nat \<Rightarrow> string" where
  "str_nat n = (if n < 10 then [''0123456789'' ! n]
                else str_nat (n div 10) @ [''0123456789'' ! (n mod 10)])"

declare str_nat.simps [simp del]

definition str_int :: "int \<Rightarrow> string" where
  "str_int i = (if i < 0 then ''-'' @ str_nat (nat (- i)) else str_nat (nat i))"

text \<open>\<^verbatim>\<open>f"{x}"\<close> for a value that is a string or \<^verbatim>\<open>None\<close>.\<close>

definition str_opt :: "string option \<Rightarrow> string" where
  "str_opt x = (case x of None \<Rightarrow> ''None'' | Some s \<Rightarrow> s)"


text \<open>
  Subscription \<^verbatim>\<open>xs[i]\<close> of a list or tuple by an integer. An index from \<open>-len(xs)\<close>
  to \<open>-1\<close> addresses the element \<open>len(xs) + i\<close>; any index outside
  \<open>-len(xs) .. len(xs) - 1\<close> raises IndexError.
\<close>

definition py_getitem :: "'a list \<Rightarrow> int \<Rightarrow> error + 'a" where
  "py_getitem xs i =
     (if 0 \<le> i \<and> i < int (length xs) then Inr (xs ! nat i)
      else if i < 0 \<and> - i \<le> int (length xs) then Inr (xs ! nat (int (length xs) + i))
      else Inl IndexError)"


section \<open>schemas/excelMatchEntry.py\<close>

datatype ExcelMatchEntryOrder = matchId_col | date_col | matchResult_col | score_col
  | agent_col | map_col | rank_col | YTLink_col | localPath_col

text \<open>The members of the enumeration in declaration order, their names and values.\<close>

definition ExcelMatchEntryOrder_members :: "ExcelMatchEntryOrder list" where
  "ExcelMatchEntryOrder_members =
     [matchId_col, date_col, matchResult_col, score_col, agent_col, map_col, rank_col,
      YTLink_col, localPath_col]"

fun member_name :: "ExcelMatchEntryOrder \<Rightarrow> string" where
  "member_name matchId_col = ''matchId''"
| "member_name date_col = ''date''"
| "member_name matchResult_col = ''matchResult''"
| "member_name score_col = ''score''"
| "member_name agent_col = ''agent''"
| "member_name map_col = ''map''"
| "member_name rank_col = ''rank''"
| "member_name YTLink_col = ''YTLink''"
| "member_name localPath_col = ''localPath''"

fun member_value :: "ExcelMatchEntryOrder \<Rightarrow> nat" where
  "member_value matchId_col = 0"
| "member_value date_col = 1"
| "member_value matchResult_col = 2"
| "member_value score_col = 3"
| "member_value agent_col = 4"
| "member_value map_col = 5"
| "member_value rank_col = 6"
| "member_value YTLink_col = 7"
| "member_value localPath_col = 8"

text \<open>\<^verbatim>\<open>ExcelMatchEntryOrder(i)\<close>: the member whose value is \<open>i\<close>, or ValueError.\<close>

definition ExcelMatchEntryOrder_call :: "nat \<Rightarrow> error + ExcelMatchEntryOrder" where
  "ExcelMatchEntryOrder_call i =
     (case find (\<lambda>c. member_value c = i) ExcelMatchEntryOrder_members of
        None \<Rightarrow> Inl ValueError
      | Some c \<Rightarrow> Inr c)"

definition printableTitles :: "(string \<times> string) list" where
  "printableTitles =
     [(''matchId'', ''Riot Match ID''), (''date'', ''Date''), (''matchResult'', ''Match Result''),
      (''score'', ''Score''), (''agent'', ''Agent''), (''map'', ''Map''), (''rank'', ''Rank''),
      (''YTLink'', ''YouTube Link''), (''localPath'', ''Local Path'')]"

text \<open>A value held by an attribute or a spreadsheet cell.\<close>

datatype cell_value = Blank | Text string | Number int

definition opt_cell :: "string option \<Rightarrow> cell_value" where
  "opt_cell x = (case x of None \<Rightarrow> Blank | Some s \<Rightarrow> Text s)"

record ExcelMatchEntry =
  matchId :: string
  date :: string
  matchResult :: string
  score :: string
  agent :: string
  map_name :: string
  rank :: "string option"
  YTLink :: "string option"
  localPath :: "string option"

text \<open>The instance dictionary \<^verbatim>\<open>self.__dict__\<close>, in the order \<^verbatim>\<open>__init__\<close> assigns.\<close>

definition entry_dict :: "ExcelMatchEntry \<Rightarrow> (string \<times> cell_value) list" where
  "entry_dict e =
     [(''matchId'', Text (matchId e)), (''date'', Text (date e)),
      (''matchResult'', Text (matchResult e)), (''score'', Text (score e)),
      (''agent'', Text (agent e)), (''map'', Text (map_name e)),
      (''rank'', opt_cell (rank e)), (''YTLink'', opt_cell (YTLink e)),
      (''localPath'', opt_cell (localPath e))]"

definition dict_getitem :: "(string \<times> 'v) list \<Rightarrow> string \<Rightarrow> error + 'v" where
  "dict_getitem d k = (case map_of d k of None \<Rightarrow> Inl KeyError | Some v \<Rightarrow> Inr v)"

text \<open>The loop \<^verbatim>\<open>for i in range(len(ExcelMatchEntryOrder))\<close> of both methods.\<close>

fun in_order :: "(string \<times> 'v) list \<Rightarrow> nat list \<Rightarrow> 'v list \<Rightarrow> error + 'v list" where
  "in_order d [] result = Inr result"
| "in_order d (i # is) result =
     (case ExcelMatchEntryOrder_call i of
        Inl err \<Rightarrow> Inl err
      | Inr c \<Rightarrow>
          (case dict_getitem d (member_name c) of
             Inl err \<Rightarrow> Inl err
           | Inr v \<Rightarrow> in_order d is (result @ [v])))"

definition asTuple :: "ExcelMatchEntry \<Rightarrow> error + cell_value list" where
  "asTuple e = in_order (entry_dict e) [0 ..< length ExcelMatchEntryOrder_members] []"

definition getPrintableTitlesInOrder :: "error + string list" where
  "getPrintableTitlesInOrder =
     in_order printableTitles [0 ..< length ExcelMatchEntryOrder_members] []"


section \<open>utils.py: pairing videos with matches, match results\<close>

text \<open>
  A match of the API's match list, with the fields the program reads:
  \<^verbatim>\<open>meta.id\<close>, \<^verbatim>\<open>meta.started_at\<close>, \<^verbatim>\<open>meta.map.name\<close>, \<^verbatim>\<open>stats.team\<close>,
  \<^verbatim>\<open>stats.character.name\<close>, \<^verbatim>\<open>teams.red\<close> and \<^verbatim>\<open>teams.blue\<close>.
\<close>

record match_data =
  meta_id :: string
  meta_started_at :: string
  meta_map_name :: string
  stats_team :: string
  stats_character_name :: string
  teams_red :: int
  teams_blue :: int

record pairing =
  video_path :: string
  match_data :: match_data

definition default_time_threshold :: rat where
  "default_time_threshold = 60 * 5"

text \<open>
  The inner loop of \<^verbatim>\<open>compare_matchlist_with_video_dates\<close> over the items of the
  dictionary \<^verbatim>\<open>localVideoDates\<close> (an association list in insertion order), and the
  outer loop over the matches. \<open>utc_to_unix\<close> is the conversion of timeUtils.py, a call
  into the datetime library.
\<close>

fun compare_videos ::
  "rat \<Rightarrow> match_data \<Rightarrow> rat \<Rightarrow> (string \<times> int) list \<Rightarrow> pairing list \<Rightarrow> pairing list" where
  "compare_videos match_date m time_threshold [] found_pairings = found_pairings"
| "compare_videos match_date m time_threshold ((vpath, video_date) # items) found_pairings =
     compare_videos match_date m time_threshold items
       (if \<bar>of_int video_date - match_date\<bar> < time_threshold
        then found_pairings @ [\<lparr>video_path = vpath, match_data = m\<rparr>]
        else found_pairings)"

fun compare_matches ::
  "(string \<Rightarrow> rat) \<Rightarrow> match_data list \<Rightarrow> (string \<times> int) list \<Rightarrow> rat \<Rightarrow> pairing list
   \<Rightarrow> pairing list" where
  "compare_matches utc_to_unix [] localVideoDates time_threshold found_pairings = found_pairings"
| "compare_matches utc_to_unix (m # matchlist) localVideoDates time_threshold found_pairings =
     compare_matches utc_to_unix matchlist localVideoDates time_threshold
       (compare_videos (utc_to_unix (meta_started_at m)) m time_threshold localVideoDates
          found_pairings)"

definition compare_matchlist_with_video_dates ::
  "(string \<Rightarrow> rat) \<Rightarrow> match_data list \<Rightarrow> (string \<times> int) list \<Rightarrow> rat \<Rightarrow> pairing list" where
  "compare_matchlist_with_video_dates utc_to_unix matchlist localVideoDates time_threshold =
     compare_matches utc_to_unix matchlist localVideoDates time_threshold []"

definition getGameResult :: "match_data \<Rightarrow> string \<times> string" where
  "getGameResult md =
     (let player_team = stats_team md;
          (player_score, enemy_score) =
             (if player_team = ''Red'' then (teams_red md, teams_blue md)
              else (teams_blue md, teams_red md));
          result = (if player_score > enemy_score then ''Win''
                    else if player_score < enemy_score then ''Loss''
                    else ''Draw'');
          score = str_int player_score @ ''-'' @ str_int enemy_score
      in (result, score))"


section \<open>videoUtils.py: the duration and age filters\<close>










section \<open>excelSpreadsheet.py\<close>

text \<open>
  The active worksheet is the list of its rows, first row first; a row is the list of its
  cell values from column A on, and a cell beyond the end of a row is blank. Cell styles are
  not modelled, and reading cells leaves the worksheet as it is. An \<^verbatim>\<open>ExcelSpreadsheet\<close> object holds the workbook \<^verbatim>\<open>self.wb\<close>
  (\<open>None\<close> until it is opened); \<open>saved\<close> is the worksheet in the file
  \<^verbatim>\<open>self.filename\<close> on disk (\<open>None\<close> when there is no file).
\<close>

type_synonym sheet = "cell_value list list"

record ExcelSpreadsheet =
  wb :: "sheet option"
  saved :: "sheet option"

definition sheet_append :: "sheet \<Rightarrow> cell_value list \<Rightarrow> sheet" where
  "sheet_append sheet row = sheet @ [row]"

definition max_row :: "sheet \<Rightarrow> nat" where
  "max_row sheet = max 1 (length sheet)"

text \<open>\<^verbatim>\<open>sheet[r]\<close>: the tuple of the cells of row \<open>r\<close>, rows counted from 1.\<close>

definition sheet_row :: "sheet \<Rightarrow> nat \<Rightarrow> cell_value list" where
  "sheet_row sheet r = (if 1 \<le> r \<and> r \<le> length sheet then sheet ! (r - 1) else [])"

definition cell_at :: "cell_value list \<Rightarrow> nat \<Rightarrow> cell_value" where
  "cell_at row i = (if i < length row then row ! i else Blank)"

definition column_letters :: string where
  "column_letters = ''ABCDEFGHIJKLMNOPQRSTUVWXYZ''"

text \<open>The zero-based position of the column a letter names.\<close>

definition column_index :: "char \<Rightarrow> nat" where
  "column_index c = length (takeWhile (\<lambda>x. x \<noteq> c) column_letters)"

text \<open>\<^verbatim>\<open>sheet["I"]\<close>: the cells of a column in the rows 1 to \<^verbatim>\<open>max_row\<close>.\<close>

definition sheet_column :: "sheet \<Rightarrow> char \<Rightarrow> cell_value list" where
  "sheet_column sheet c =
     map (\<lambda>r. cell_at (sheet_row sheet r) (column_index c)) [1 ..< Suc (max_row sheet)]"

text \<open>
  An index as Python sees it: an integer, or a member of \<^verbatim>\<open>ExcelMatchEntryOrder\<close>.
  The enumeration derives from \<^verbatim>\<open>Enum\<close>, so a member is no integer and a tuple indexed
  by it raises TypeError.
\<close>

datatype py_index = Int_index int | Member_index ExcelMatchEntryOrder

definition tuple_getitem :: "'a list \<Rightarrow> py_index \<Rightarrow> error + 'a" where
  "tuple_getitem xs k =
     (case k of Int_index i \<Rightarrow> py_getitem xs i | Member_index c \<Rightarrow> Inl TypeError)"

definition create :: "ExcelSpreadsheet \<Rightarrow> error + ExcelSpreadsheet" where
  "create self =
     (case getPrintableTitlesInOrder of
        Inl err \<Rightarrow> Inl err
      | Inr firstRow \<Rightarrow>
          (let sheet = sheet_append [] (map Text firstRow)
           in Inr (self\<lparr>wb := Some sheet, saved := Some sheet\<rparr>)))"

text \<open>
  \<^verbatim>\<open>open\<close>: what the \<open>n\<close>-th call of \<^verbatim>\<open>openpyxl.load_workbook\<close> meets. A file in use
  (PermissionError) is tried again after a pause, without bound.
\<close>

datatype load_outcome = Load_ok | PermissionError | Load_error

partial_function (option) open_loop ::
  "(nat \<Rightarrow> load_outcome) \<Rightarrow> nat \<Rightarrow> ExcelSpreadsheet \<Rightarrow> (error + ExcelSpreadsheet) option" where
  "open_loop load_workbook n self =
     (case load_workbook n of
        PermissionError \<Rightarrow> open_loop load_workbook (Suc n) self
      | Load_error \<Rightarrow> Some (Inl OtherError)
      | Load_ok \<Rightarrow>
          (case saved self of
             None \<Rightarrow> Some (create self)
           | Some sheet \<Rightarrow> Some (Inr (self\<lparr>wb := Some sheet\<rparr>))))"

definition open_spreadsheet ::
  "(nat \<Rightarrow> load_outcome) \<Rightarrow> ExcelSpreadsheet \<Rightarrow> (error + ExcelSpreadsheet) option" where
  "open_spreadsheet load_workbook self = open_loop load_workbook 0 self"

text \<open>
  The loop of \<^verbatim>\<open>writeMatchesToExcel\<close>. It returns the exception that ended it, if any,
  and the worksheet as the loop left it.
\<close>

fun write_loop :: "ExcelMatchEntry list \<Rightarrow> sheet \<Rightarrow> error option \<times> sheet" where
  "write_loop [] sheet = (None, sheet)"
| "write_loop (m # matches) sheet =
     (case asTuple m of
        Inl err \<Rightarrow> (Some err, sheet)
      | Inr row \<Rightarrow>
          (let sheet = sheet_append sheet row in
           case tuple_getitem (sheet_row sheet (max_row sheet)) (Member_index matchResult_col) of
             Inl err \<Rightarrow> (Some err, sheet)
           | Inr matchResultCell \<Rightarrow> write_loop matches sheet))"

text \<open>
  \<open>matches\<close> is \<open>None\<close> when the caller passes \<^verbatim>\<open>None\<close>, as main does with the
  result of a failed \<^verbatim>\<open>uploadGamesToYoutube\<close>. The workbook is saved after the loop only.
\<close>

definition writeMatchesToExcel ::
  "ExcelSpreadsheet \<Rightarrow> ExcelMatchEntry list option \<Rightarrow> error option \<times> ExcelSpreadsheet" where
  "writeMatchesToExcel self matches =
     (case wb self of
        None \<Rightarrow> (None, self)
      | Some sheet \<Rightarrow>
          (case matches of
             None \<Rightarrow> (Some TypeError, self)
           | Some ms \<Rightarrow>
               (case write_loop ms sheet of
                  (Some err, sheet') \<Rightarrow> (Some err, self\<lparr>wb := Some sheet'\<rparr>)
                | (None, sheet') \<Rightarrow> (None, self\<lparr>wb := Some sheet', saved := Some sheet'\<rparr>))))"

definition filterOutProcessedMatches :: "ExcelSpreadsheet \<Rightarrow> string list \<Rightarrow> string list option"
  where
  "filterOutProcessedMatches self mp4_files =
     (case wb self of
        None \<Rightarrow> None
      | Some sheet \<Rightarrow>
          (let localPaths =
                 drop 1 (sheet_column sheet (column_letters ! member_value localPath_col));
               unprocessed_videos = filter (\<lambda>video. Text video \<notin> set localPaths) mp4_files
           in Some unprocessed_videos))"


section \<open>youtube_api.py: uploading the games\<close>

text \<open>
  \<^verbatim>\<open>uploadVideo\<close> and \<^verbatim>\<open>addVideoToPlaylist\<close>, given what the decorated query they call
  does: it returns the response (here its \<^verbatim>\<open>id\<close>) or \<^verbatim>\<open>None\<close>, or raises. The handler
  of \<^verbatim>\<open>ExceptionHistory\<close> in \<^verbatim>\<open>addVideoToPlaylist\<close> calls \<^verbatim>\<open>pprint.ppprint\<close>, an
  attribute the module does not have.
\<close>

definition uploadVideo :: "(error + string option) \<Rightarrow> error + string option" where
  "uploadVideo queryVideosInsert =
     (case queryVideosInsert of
        Inl (HttpError status) \<Rightarrow> Inr None
      | Inl ExceptionHistory \<Rightarrow> Inr None
      | Inl err \<Rightarrow> Inl err
      | Inr None \<Rightarrow> Inr None
      | Inr (Some video_id) \<Rightarrow> Inr (Some video_id))"

definition addVideoToPlaylist :: "(error + string option) \<Rightarrow> error + string option" where
  "addVideoToPlaylist queryPlaylistItemsInsert =
     (case queryPlaylistItemsInsert of
        Inl (HttpError status) \<Rightarrow> Inr None
      | Inl ExceptionHistory \<Rightarrow> Inl AttributeError
      | Inl err \<Rightarrow> Inl err
      | Inr response \<Rightarrow> Inr response)"

text \<open>
  What the API does for one game: the outcome of \<^verbatim>\<open>queryVideosInsert\<close> for a path and a
  title, and of \<^verbatim>\<open>queryPlaylistItemsInsert\<close> for a video and a playlist.
\<close>

record job_api =
  queryVideosInsert :: "string option \<Rightarrow> string \<Rightarrow> error + string option"
  queryPlaylistItemsInsert :: "string \<Rightarrow> string option \<Rightarrow> error + string option"

definition game_title :: "ExcelMatchEntry \<Rightarrow> string" where
  "game_title game =
     agent game @ '', '' @ map_name game @ '' | '' @ date game @ '' | '' @ matchResult game
       @ '' '' @ score game @ '' | '' @ str_opt (rank game)"

text \<open>The worker: it returns the exception it raised, if any, and the shared list.\<close>

definition uploadGameToYoutube ::
  "job_api \<Rightarrow> ExcelMatchEntry \<Rightarrow> string option \<Rightarrow> ExcelMatchEntry list
   \<Rightarrow> error option \<times> ExcelMatchEntry list" where
  "uploadGameToYoutube api game playlistID sharedGames =
     (let title = game_title game in
      case uploadVideo (queryVideosInsert api (localPath game) title) of
        Inl err \<Rightarrow> (Some err, sharedGames)
      | Inr None \<Rightarrow> (None, sharedGames)
      | Inr (Some videoID) \<Rightarrow>
          (let videoLink = ''https://www.youtube.com/watch?v='' @ videoID;
               gameWithLink = game\<lparr>YTLink := Some videoLink\<rparr>;
               sharedGames = sharedGames @ [gameWithLink]
           in case addVideoToPlaylist (queryPlaylistItemsInsert api videoID playlistID) of
                Inl err \<Rightarrow> (Some err, sharedGames)
              | Inr playlistItem \<Rightarrow> (None, sharedGames)))"

text \<open>
  The pool runs one worker per game. \<open>schedule\<close> lists the positions of the games in the
  order in which their workers reach the shared list; \<^verbatim>\<open>result.get()\<close> is then called on
  the workers in the order of the games and raises what the first failed worker raised.
\<close>

fun run_workers ::
  "(nat \<Rightarrow> job_api) \<Rightarrow> ExcelMatchEntry list \<Rightarrow> string option \<Rightarrow> nat list \<Rightarrow> ExcelMatchEntry list
   \<Rightarrow> ExcelMatchEntry list" where
  "run_workers api games playlistID [] sharedGames = sharedGames"
| "run_workers api games playlistID (i # schedule) sharedGames =
     run_workers api games playlistID schedule
       (if i < length games
        then snd (uploadGameToYoutube (api i) (games ! i) playlistID sharedGames)
        else sharedGames)"

fun get_results ::
  "(nat \<Rightarrow> job_api) \<Rightarrow> ExcelMatchEntry list \<Rightarrow> string option \<Rightarrow> nat list \<Rightarrow> error option" where
  "get_results api games playlistID [] = None"
| "get_results api games playlistID (i # results) =
     (case fst (uploadGameToYoutube (api i) (games ! i) playlistID []) of
        Some err \<Rightarrow> Some err
      | None \<Rightarrow> get_results api games playlistID results)"

definition uploadGamesToYoutube ::
  "string option \<Rightarrow> string option \<Rightarrow> (nat \<Rightarrow> job_api) \<Rightarrow> nat list \<Rightarrow> ExcelMatchEntry list
   \<Rightarrow> error + ExcelMatchEntry list option" where
  "uploadGamesToYoutube getPlaylistIDByName createPlaylist api schedule games =
     (case getPlaylistIDByName of
        None \<Rightarrow> Inr None
      | Some found \<Rightarrow>
          (let playlistID = (if found = ''-1'' then createPlaylist else Some found);
               sharedGames = run_workers api games playlistID schedule []
           in case get_results api games playlistID [0 ..< length games] of
                Some err \<Rightarrow> Inl err
              | None \<Rightarrow> Inr (Some sharedGames)))"


section \<open>youtube_api.py: retrying a request\<close>

text \<open>
  What one call of \<^verbatim>\<open>request.execute()\<close> does: it returns a response (with its
  \<^verbatim>\<open>id\<close>, if it has one), returns \<^verbatim>\<open>None\<close>, raises HttpError with a status, or raises
  something else.
\<close>

datatype execute_outcome = Response "string option" | No_response | Http_error nat
  | Other_exception

text \<open>
  The effects of the retry code: how many times \<^verbatim>\<open>execute\<close> and \<^verbatim>\<open>random\<close> were
  called, and the arguments of the calls of \<^verbatim>\<open>sleep\<close>, in seconds. The \<open>n\<close>-th call of
  \<^verbatim>\<open>execute\<close> does \<open>execute n\<close>, the \<open>n\<close>-th call of \<^verbatim>\<open>random\<close> returns
  \<open>random n\<close>.
\<close>

record net =
  executes :: nat
  randoms :: nat
  slept :: "rat list"

definition default_retries :: nat where
  "default_retries = 5"

text \<open>
  The block under \<^verbatim>\<open>if error is not None\<close>: it gives up with \<^verbatim>\<open>None\<close> (left) or sleeps
  and goes round the loop again with the new value of \<^verbatim>\<open>retry\<close> (right).
\<close>

definition backoff ::
  "(nat \<Rightarrow> rat) \<Rightarrow> nat \<Rightarrow> nat \<Rightarrow> net \<Rightarrow> ((error + string option) \<times> net) + (bool \<times> nat \<times> net)" where
  "backoff random retries retry w =
     (let retry = retry + 1 in
      if retry > retries then Inl (Inr None, w)
      else (let max_sleep = 2 ^ retry;
                sleep_seconds = random (randoms w) * max_sleep
            in Inr (True, retry,
                 w\<lparr>randoms := Suc (randoms w), slept := slept w @ [sleep_seconds]\<rparr>)))"

text \<open>
  One pass through the body of \<^verbatim>\<open>while response is None\<close>. \<open>error\<close> says whether the
  variable \<^verbatim>\<open>error\<close> is set; it is never reset.
\<close>

definition resumable_step ::
  "(nat \<Rightarrow> execute_outcome) \<Rightarrow> (nat \<Rightarrow> rat) \<Rightarrow> nat \<Rightarrow> bool \<Rightarrow> nat \<Rightarrow> net
   \<Rightarrow> ((error + string option) \<times> net) + (bool \<times> nat \<times> net)" where
  "resumable_step execute random retries error retry w =
     (let outcome = execute (executes w);
          w = w\<lparr>executes := Suc (executes w)\<rparr>
      in case outcome of
           Response response \<Rightarrow> Inl (Inr response, w)
         | Other_exception \<Rightarrow> Inl (Inl OtherError, w)
         | Http_error status \<Rightarrow>
             if status \<ge> 500 then backoff random retries retry w
             else Inl (Inl (HttpError status), w)
         | No_response \<Rightarrow>
             if error then backoff random retries retry w else Inr (False, retry, w))"

partial_function (option) resumable_loop ::
  "(nat \<Rightarrow> execute_outcome) \<Rightarrow> (nat \<Rightarrow> rat) \<Rightarrow> nat \<Rightarrow> bool \<Rightarrow> nat \<Rightarrow> net
   \<Rightarrow> ((error + string option) \<times> net) option" where
  "resumable_loop execute random retries error retry w =
     (case resumable_step execute random retries error retry w of
        Inl result \<Rightarrow> Some result
      | Inr (error', retry', w') \<Rightarrow> resumable_loop execute random retries error' retry' w')"

definition resumable_upload ::
  "(nat \<Rightarrow> execute_outcome) \<Rightarrow> (nat \<Rightarrow> rat) \<Rightarrow> nat \<Rightarrow> net \<Rightarrow> ((error + string option) \<times> net) option"
  where
  "resumable_upload execute random retries w = resumable_loop execute random retries False 0 w"

text \<open>
  The decorator \<^verbatim>\<open>retryAPIWithDelay\<close>: the loop \<^verbatim>\<open>for i in range(runs)\<close>, by the number
  of runs that remain. \<open>apiFunc\<close> is the decorated function, acting on the effects; it
  may not return.
\<close>

fun retry_runs ::
  "nat \<Rightarrow> rat \<Rightarrow> (net \<Rightarrow> ((error + 'a) \<times> net) option) \<Rightarrow> net \<Rightarrow> ((error + 'a) \<times> net) option" where
  "retry_runs 0 delay apiFunc w = Some (Inl ExceptionHistory, w)"
| "retry_runs (Suc remaining) delay apiFunc w =
     (case apiFunc w of
        None \<Rightarrow> None
      | Some (Inr response, w') \<Rightarrow> Some (Inr response, w')
      | Some (Inl (HttpError status), w') \<Rightarrow>
          if status < 500 then Some (Inl (HttpError status), w')
          else retry_runs remaining delay apiFunc (w'\<lparr>slept := slept w' @ [delay / 1000]\<rparr>)
      | Some (Inl err, w') \<Rightarrow> Some (Inl err, w'))"

definition retryAPIWithDelay ::
  "nat \<Rightarrow> rat \<Rightarrow> (net \<Rightarrow> ((error + 'a) \<times> net) option) \<Rightarrow> net \<Rightarrow> ((error + 'a) \<times> net) option" where
  "retryAPIWithDelay runs delay apiFunc = retry_runs runs delay apiFunc"

text \<open>
  \<^verbatim>\<open>queryVideosInsert\<close> as the source defines it, decorated with
  \<^verbatim>\<open>retryAPIWithDelay(runs=3, delay=300)\<close>. \<open>access_denied\<close> says whether getting the
  credentials raises AccessDeniedError.
\<close>

definition queryVideosInsert_decorated ::
  "bool \<Rightarrow> (nat \<Rightarrow> execute_outcome) \<Rightarrow> (nat \<Rightarrow> rat) \<Rightarrow> net \<Rightarrow> ((error + string option) \<times> net) option"
  where
  "queryVideosInsert_decorated access_denied execute random =
     retryAPIWithDelay 3 300
       (\<lambda>w. if access_denied then Some (Inr None, w)
            else resumable_upload execute random default_retries w)"


section \<open>utils.py: fetching the match list page by page\<close>

text \<open>
  A page of the match list as the API returns it: \<^verbatim>\<open>results.returned\<close>,
  \<^verbatim>\<open>results.after\<close> and the matches in \<^verbatim>\<open>data\<close>.
\<close>

record matchlist =
  results_returned :: int
  results_after :: int
  data :: "match_data list"

text \<open>How a function or the program ends: it returns, calls \<^verbatim>\<open>exit()\<close>, or raises.\<close>

datatype 'a outcome = Returned 'a | Exited | Raised error

text \<open>\<^verbatim>\<open>min\<close> of a sequence; the empty sequence raises ValueError.\<close>

fun py_min :: "int list \<Rightarrow> error + int" where
  "py_min [] = Inl ValueError"
| "py_min (x # xs) = Inr (fold min xs x)"

text \<open>
  One pass through the body of the loop of \<^verbatim>\<open>get_pairings\<close>. \<open>get_matchlist size page mode\<close>
  is the answer of the API for the saved account (\<open>None\<close> when the request fails);
  \<open>requests\<close> lists the sizes and pages requested so far. The pass ends the function
  (left) or leaves the new \<^verbatim>\<open>oldest_match_date\<close>, \<^verbatim>\<open>page\<close> and \<^verbatim>\<open>total_pairings\<close> (right).
\<close>

definition pairings_step ::
  "(string \<Rightarrow> rat) \<Rightarrow> (nat \<Rightarrow> nat \<Rightarrow> string option \<Rightarrow> matchlist option) \<Rightarrow> (string \<times> int) list
   \<Rightarrow> string option \<Rightarrow> nat \<Rightarrow> rat \<Rightarrow> nat \<Rightarrow> pairing list \<Rightarrow> (nat \<times> nat) list
   \<Rightarrow> (pairing list outcome \<times> (nat \<times> nat) list) + (rat \<times> nat \<times> pairing list \<times> (nat \<times> nat) list)"
  where
  "pairings_step utc_to_unix get_matchlist localVideoDates gameMode pageSize time_threshold
       page total_pairings requests =
     (let response = get_matchlist pageSize page gameMode;
          requests = requests @ [(pageSize, page)];
          page = page + 1
      in case response of
           None \<Rightarrow> Inl (Exited, requests)
         | Some matchlist \<Rightarrow>
             (let returnedEntries = results_returned matchlist in
              case py_getitem (data matchlist) (returnedEntries - 1) of
                Inl err \<Rightarrow> Inl (Raised err, requests)
              | Inr oldest_match \<Rightarrow>
                  (let oldest_match_date = utc_to_unix (meta_started_at oldest_match);
                       pairings = compare_matchlist_with_video_dates utc_to_unix (data matchlist)
                                    localVideoDates time_threshold;
                       total_pairings = total_pairings @ pairings
                   in if returnedEntries = results_after matchlist
                      then Inl (Returned total_pairings, requests)
                      else Inr (oldest_match_date, page, total_pairings, requests))))"

partial_function (option) pairings_loop ::
  "(string \<Rightarrow> rat) \<Rightarrow> (nat \<Rightarrow> nat \<Rightarrow> string option \<Rightarrow> matchlist option) \<Rightarrow> (string \<times> int) list
   \<Rightarrow> string option \<Rightarrow> nat \<Rightarrow> rat \<Rightarrow> int \<Rightarrow> rat \<Rightarrow> nat \<Rightarrow> pairing list \<Rightarrow> (nat \<times> nat) list
   \<Rightarrow> (pairing list outcome \<times> (nat \<times> nat) list) option" where
  "pairings_loop utc_to_unix get_matchlist localVideoDates gameMode pageSize time_threshold
       oldest_local_video_date oldest_match_date page total_pairings requests =
     (if of_int oldest_local_video_date < oldest_match_date
      then (case pairings_step utc_to_unix get_matchlist localVideoDates gameMode pageSize
                   time_threshold page total_pairings requests of
              Inl result \<Rightarrow> Some result
            | Inr (oldest_match_date', page', total_pairings', requests') \<Rightarrow>
                pairings_loop utc_to_unix get_matchlist localVideoDates gameMode pageSize
                  time_threshold oldest_local_video_date oldest_match_date' page' total_pairings'
                  requests')
      else Some (Returned total_pairings, requests))"

text \<open>\<open>time_now\<close> is the value of \<^verbatim>\<open>time.time()\<close> when the function starts.\<close>

definition get_pairings ::
  "(string \<Rightarrow> rat) \<Rightarrow> (nat \<Rightarrow> nat \<Rightarrow> string option \<Rightarrow> matchlist option) \<Rightarrow> rat \<Rightarrow> (string \<times> int) list
   \<Rightarrow> string option \<Rightarrow> nat \<Rightarrow> rat \<Rightarrow> (pairing list outcome \<times> (nat \<times> nat) list) option" where
  "get_pairings utc_to_unix get_matchlist time_now localVideoDates gameMode pageSize
       time_threshold =
     (case py_min (map snd localVideoDates) of
        Inl err \<Rightarrow> Some (Raised err, [])
      | Inr oldest_local_video_date \<Rightarrow>
          pairings_loop utc_to_unix get_matchlist localVideoDates gameMode pageSize time_threshold
            oldest_local_video_date time_now 1 [] [])"



section \<open>utils.py: the rank before a match\<close>

text \<open>A player of \<^verbatim>\<open>data.players.all_players\<close> in the answer of the match request.\<close>

record player =
  player_name :: string
  player_tag :: string
  currenttier_patched :: string




section \<open>main.py\<close>











section \<open>Notions used in the statements\<close>

text \<open>The attribute of an entry that a member of the enumeration names.\<close>

fun entry_field :: "ExcelMatchEntry \<Rightarrow> ExcelMatchEntryOrder \<Rightarrow> cell_value" where
  "entry_field e matchId_col = Text (matchId e)"
| "entry_field e date_col = Text (date e)"
| "entry_field e matchResult_col = Text (matchResult e)"
| "entry_field e score_col = Text (score e)"
| "entry_field e agent_col = Text (agent e)"
| "entry_field e map_col = Text (map_name e)"
| "entry_field e rank_col = opt_cell (rank e)"
| "entry_field e YTLink_col = opt_cell (YTLink e)"
| "entry_field e localPath_col = opt_cell (localPath e)"

text \<open>What the worker of one game adds to the shared list.\<close>

definition appended :: "job_api \<Rightarrow> ExcelMatchEntry \<Rightarrow> ExcelMatchEntry list" where
  "appended api game = snd (uploadGameToYoutube api game None [])"


text \<open>A request whose every execution fails below HTTP, and a value for \<^verbatim>\<open>random()\<close>.\<close>

definition network_failure :: "nat \<Rightarrow> execute_outcome" where
  "network_failure n = Other_exception"

definition random_half :: "nat \<Rightarrow> rat" where
  "random_half n = 1 / 2"


text \<open>
  Whether the loop of \<^verbatim>\<open>get_pairings\<close> goes on after the answer to a request: the answer
  is a page, the page has the element \<^verbatim>\<open>data[returned - 1]\<close>, \<^verbatim>\<open>results.returned\<close>
  differs from \<^verbatim>\<open>results.after\<close>, and the oldest local video is older than that match.
\<close>

definition page_continues :: "(string \<Rightarrow> rat) \<Rightarrow> int \<Rightarrow> matchlist option \<Rightarrow> bool" where
  "page_continues utc_to_unix oldest_local_video_date response =
     (case response of
        None \<Rightarrow> False
      | Some matchlist \<Rightarrow>
          (case py_getitem (data matchlist) (results_returned matchlist - 1) of
             Inl err \<Rightarrow> False
           | Inr oldest_match \<Rightarrow>
               results_returned matchlist \<noteq> results_after matchlist \<and>
               of_int oldest_local_video_date < utc_to_unix (meta_started_at oldest_match)))"


section \<open>Properties of the entry schema and the spreadsheet\<close>

lemma asTuple_fields: "asTuple e = Inr (map (entry_field e) ExcelMatchEntryOrder_members)"
  by (simp add: asTuple_def entry_dict_def ExcelMatchEntryOrder_members_def upt_conv_Cons
      ExcelMatchEntryOrder_call_def dict_getitem_def)

lemma titles_in_order:
  "getPrintableTitlesInOrder =
     Inr [''Riot Match ID'', ''Date'', ''Match Result'', ''Score'', ''Agent'', ''Map'', ''Rank'',
          ''YouTube Link'', ''Local Path'']"
  by (simp add: getPrintableTitlesInOrder_def printableTitles_def ExcelMatchEntryOrder_members_def
      upt_conv_Cons ExcelMatchEntryOrder_call_def dict_getitem_def)

lemma call_member: "i < 9 \<Longrightarrow> ExcelMatchEntryOrder_call i = Inr (ExcelMatchEntryOrder_members ! i)"
proof -
  assume "i < 9"
  then have "i \<in> {0, 1, 2, 3, 4, 5, 6, 7, 8}" by auto
  then show ?thesis
    by (auto simp: ExcelMatchEntryOrder_call_def ExcelMatchEntryOrder_members_def)
qed

text \<open>
  The loop of \<^verbatim>\<open>writeMatchesToExcel\<close> appends the row of the first match and then indexes
  the row by a member of the enumeration, which raises.
\<close>

lemma write_loop_first_row:
  "write_loop ms sheet =
     (if ms = [] then (None, sheet)
      else (Some TypeError, sheet @ [map (entry_field (hd ms)) ExcelMatchEntryOrder_members]))"
  by (cases ms) (simp_all add: asTuple_fields tuple_getitem_def sheet_append_def)

lemma localPath_letter: "column_letters ! member_value localPath_col = CHR ''I''"
  by (simp add: column_letters_def)

lemma localPath_column_index: "column_index (CHR ''I'') = 8"
  by (simp add: column_letters_def column_index_def)

lemma sheet_column_rows:
  assumes "sheet \<noteq> []"
  shows "sheet_column sheet c = map (\<lambda>row. cell_at row (column_index c)) sheet"
proof -
  from assms have m: "max_row sheet = length sheet"
    by (cases sheet) (simp_all add: max_row_def)
  have "sheet_column sheet c =
      map (\<lambda>r. cell_at (sheet_row sheet r) (column_index c)) (map Suc [0 ..< length sheet])"
    unfolding sheet_column_def m map_Suc_upt by simp
  also have "\<dots> = map (\<lambda>i. cell_at (sheet ! i) (column_index c)) [0 ..< length sheet]"
    by (simp add: sheet_row_def Suc_le_eq)
  also have "\<dots> = map (\<lambda>row. cell_at row (column_index c)) (map (\<lambda>i. sheet ! i) [0 ..< length sheet])"
    by simp
  finally show ?thesis by (simp only: map_nth)
qed

lemma sheet_column_no_rows: "sheet_column [] c = [Blank]"
  by (simp add: sheet_column_def max_row_def sheet_row_def cell_at_def)

text \<open>The filter keeps the paths that no row below the first has in its ninth cell.\<close>

lemma filterOutProcessedMatches_open:
  assumes "wb self = Some sheet"
  shows "filterOutProcessedMatches self mp4_files =
     Some (filter (\<lambda>video. Text video \<notin> set (map (\<lambda>row. cell_at row 8) (tl sheet))) mp4_files)"
proof (cases "sheet = []")
  case True
  with assms show ?thesis
    by (simp add: filterOutProcessedMatches_def sheet_column_no_rows)
next
  case False
  with assms show ?thesis
    by (simp add: filterOutProcessedMatches_def sheet_column_rows localPath_letter [simplified]
        localPath_column_index drop_Suc map_tl)
qed


section \<open>Properties of the pairing and of the filters\<close>

lemma compare_videos_filter:
  "compare_videos match_date m th items found =
     found @ map (\<lambda>(p, d). \<lparr>video_path = p, match_data = m\<rparr>)
               (filter (\<lambda>(p, d). \<bar>of_int d - match_date\<bar> < th) items)"
  by (induction items arbitrary: found) auto

lemma compare_matches_concat:
  "compare_matches u ms items th found =
     found @ concat (map (\<lambda>m. map (\<lambda>(p, d). \<lparr>video_path = p, match_data = m\<rparr>)
        (filter (\<lambda>(p, d). \<bar>of_int d - u (meta_started_at m)\<bar> < th) items)) ms)"
  by (induction ms arbitrary: found) (auto simp: compare_videos_filter)

lemma count_pairs_of_match:
  assumes "distinct (map fst items)"
  shows "count_list (map (\<lambda>(p, d). \<lparr>video_path = p, match_data = m'\<rparr>)
            (filter (\<lambda>(p, d). Q d) items)) \<lparr>video_path = p, match_data = m\<rparr>
     = (if m' = m \<and> (\<exists>T. (p, T) \<in> set items \<and> Q T) then 1 else 0)"
  using assms
proof (induction items)
  case Nil
  then show ?case by simp
next
  case (Cons a items)
  obtain q d where a: "a = (q, d)" by (cases a)
  from Cons.prems have nq: "\<And>T. (q, T) \<notin> set items" and dist: "distinct (map fst items)"
    by (auto simp: a image_iff)
  show ?case
    using Cons.IH [OF dist] nq by (auto simp: a)
qed

lemma count_list_concat_map:
  "count_list (concat (map f xs)) y = sum_list (map (\<lambda>x. count_list (f x) y) xs)"
  by (induction xs) simp_all

lemma sum_list_indicator:
  "sum_list (map (\<lambda>x. if x = m \<and> P x then (1::nat) else 0) xs) =
     (if P m then count_list xs m else 0)"
  by (induction xs) simp_all

lemma compare_count:
  assumes "distinct (map fst lvd)"
  shows "count_list (compare_matchlist_with_video_dates u ms lvd th)
           \<lparr>video_path = p, match_data = m\<rparr>
    = (if \<exists>T. (p, T) \<in> set lvd \<and> \<bar>of_int T - u (meta_started_at m)\<bar> < th
       then count_list ms m else 0)"
proof -
  have *: "count_list (map (\<lambda>(p, d). \<lparr>video_path = p, match_data = m'\<rparr>)
        (filter (\<lambda>(p, d). \<bar>of_int d - u (meta_started_at m')\<bar> < th) lvd))
        \<lparr>video_path = p, match_data = m\<rparr>
     = (if m' = m \<and> (\<exists>T. (p, T) \<in> set lvd \<and> \<bar>of_int T - u (meta_started_at m')\<bar> < th)
        then 1 else 0)" for m'
    by (rule count_pairs_of_match [OF assms])
  show ?thesis
    unfolding compare_matchlist_with_video_dates_def compare_matches_concat
    by (simp only: append_Nil count_list_concat_map * sum_list_indicator)
qed

lemma compare_set:
  "\<lparr>video_path = p, match_data = m\<rparr> \<in> set (compare_matchlist_with_video_dates u ms lvd th) \<longleftrightarrow>
     m \<in> set ms \<and> (\<exists>T. (p, T) \<in> set lvd \<and> \<bar>of_int T - u (meta_started_at m)\<bar> < th)"
  unfolding compare_matchlist_with_video_dates_def compare_matches_concat
  by (auto simp: image_iff)





section \<open>Properties of the upload workers\<close>

lemma worker_appends:
  "snd (uploadGameToYoutube api game pid shared) = shared @ appended api game"
  by (simp add: uploadGameToYoutube_def appended_def Let_def split: sum.splits option.splits)

lemma appended_cases:
  "appended api game =
     (case uploadVideo (queryVideosInsert api (localPath game) (game_title game)) of
        Inr (Some v) \<Rightarrow> [game\<lparr>YTLink := Some (''https://www.youtube.com/watch?v='' @ v)\<rparr>]
      | _ \<Rightarrow> [])"
  by (simp add: uploadGameToYoutube_def appended_def Let_def split: sum.splits option.splits)

lemma run_workers_concat:
  "run_workers api games pid sched shared =
     shared @ concat (map (\<lambda>i. if i < length games then appended (api i) (games ! i) else []) sched)"
  by (induction sched arbitrary: shared) (simp_all add: worker_appends)

lemma mset_concat_map_cong:
  assumes "mset xs = mset ys"
  shows "mset (concat (map f xs)) = mset (concat (map f ys))"
proof -
  have "\<And>zs. mset (concat (map f zs)) = (\<Sum>i\<in>#mset zs. mset (f i))"
    by (induct_tac zs) simp_all
  with assms show ?thesis by simp
qed

lemma uploadGamesToYoutube_returned:
  assumes "uploadGamesToYoutube gp cp api sched games = Inr (Some out)"
    and "mset sched = mset [0 ..< length games]"
  shows "mset out = mset (concat (map (\<lambda>i. appended (api i) (games ! i)) [0 ..< length games]))"
proof -
  let ?f = "\<lambda>i. if i < length games then appended (api i) (games ! i) else []"
  from assms(1) obtain pid where "out = run_workers api games pid sched []"
    by (auto simp: uploadGamesToYoutube_def Let_def split: option.splits)
  then have "mset out = mset (concat (map ?f sched))"
    by (simp add: run_workers_concat)
  also have "\<dots> = mset (concat (map ?f [0 ..< length games]))"
    by (rule mset_concat_map_cong [OF assms(2)])
  also have "map ?f [0 ..< length games] = map (\<lambda>i. appended (api i) (games ! i)) [0 ..< length games]"
    by simp
  finally show ?thesis .
qed


section \<open>The pairing, the filters and the match result\<close>

text \<open>
  C1: a pairing of a video and a match is produced exactly when the video's creation time
  and the match's start time differ by less than the threshold, whose default is 300
  seconds; with the paths of the dictionary distinct, each such video and each occurrence
  of the match in the match list gives exactly one entry.
\<close>

theorem pairing_iff_within_threshold:
  assumes "distinct (map fst localVideoDates)"
  shows "(\<lparr>video_path = p, match_data = m\<rparr>
            \<in> set (compare_matchlist_with_video_dates utc_to_unix matchlist localVideoDates th)
          \<longleftrightarrow> m \<in> set matchlist \<and>
              (\<exists>T. (p, T) \<in> set localVideoDates \<and> \<bar>of_int T - utc_to_unix (meta_started_at m)\<bar> < th))
       \<and> count_list (compare_matchlist_with_video_dates utc_to_unix matchlist localVideoDates th)
            \<lparr>video_path = p, match_data = m\<rparr>
          = (if \<exists>T. (p, T) \<in> set localVideoDates \<and> \<bar>of_int T - utc_to_unix (meta_started_at m)\<bar> < th
             then count_list matchlist m else 0)
       \<and> default_time_threshold = 300"
  using compare_set compare_count [OF assms] by (simp add: default_time_threshold_def)

theorem pairing_iff_within_threshold_witness:
  "distinct (map fst [(''a.mp4'', 1100 :: int), (''b.mp4'', 2000)]) \<and>
   count_list (compare_matchlist_with_video_dates (\<lambda>s. if s = ''t1'' then 1000 else 0)
      [\<lparr>meta_id = ''id1'', meta_started_at = ''t1'', meta_map_name = ''Bind'', stats_team = ''Red'',
        stats_character_name = ''Jett'', teams_red = 13, teams_blue = 4\<rparr>]
      [(''a.mp4'', 1100), (''b.mp4'', 2000)] default_time_threshold)
      \<lparr>video_path = ''a.mp4'', match_data = \<lparr>meta_id = ''id1'', meta_started_at = ''t1'',
        meta_map_name = ''Bind'', stats_team = ''Red'', stats_character_name = ''Jett'',
        teams_red = 13, teams_blue = 4\<rparr>\<rparr> = 1"
  using pairing_iff_within_threshold [of "[(''a.mp4'', 1100), (''b.mp4'', 2000)]" "''a.mp4''"
      "\<lparr>meta_id = ''id1'', meta_started_at = ''t1'', meta_map_name = ''Bind'', stats_team = ''Red'',
        stats_character_name = ''Jett'', teams_red = 13, teams_blue = 4\<rparr>"
      "\<lambda>s. if s = ''t1'' then 1000 else 0"
      "[\<lparr>meta_id = ''id1'', meta_started_at = ''t1'', meta_map_name = ''Bind'', stats_team = ''Red'',
        stats_character_name = ''Jett'', teams_red = 13, teams_blue = 4\<rparr>]" default_time_threshold]
  by (simp add: default_time_threshold_def)




text \<open>
  C8: the player's score is the red team's when \<^verbatim>\<open>stats.team\<close> is "Red" and the blue
  team's otherwise; the result is "Win", "Loss" or "Draw" as the player's score is greater
  than, smaller than or equal to the enemy's, and the score string has the player's score
  first.
\<close>

theorem getGameResult_result_and_score:
  "(let player = (if stats_team md = ''Red'' then teams_red md else teams_blue md);
        enemy = (if stats_team md = ''Red'' then teams_blue md else teams_red md)
    in (fst (getGameResult md) = ''Win'' \<longleftrightarrow> player > enemy) \<and>
       (fst (getGameResult md) = ''Loss'' \<longleftrightarrow> player < enemy) \<and>
       (fst (getGameResult md) = ''Draw'' \<longleftrightarrow> player = enemy) \<and>
       snd (getGameResult md) = str_int player @ ''-'' @ str_int enemy)"
  by (simp add: getGameResult_def Let_def)

theorem getGameResult_result_and_score_witness:
  "getGameResult \<lparr>meta_id = ''id1'', meta_started_at = ''t1'', meta_map_name = ''Bind'',
      stats_team = ''Blue'', stats_character_name = ''Jett'', teams_red = 13, teams_blue = 4\<rparr>
     = (''Loss'', ''4-13'')"
  using getGameResult_result_and_score [of "\<lparr>meta_id = ''id1'', meta_started_at = ''t1'',
      meta_map_name = ''Bind'', stats_team = ''Blue'', stats_character_name = ''Jett'',
      teams_red = 13, teams_blue = 4\<rparr>"]
  by (simp add: getGameResult_def Let_def str_int_def str_nat.simps)


section \<open>The column order\<close>

text \<open>
  C9: \<^verbatim>\<open>asTuple\<close> returns nine values, the \<open>i\<close>-th being the attribute that the member
  with value \<open>i\<close> names, in the order matchId, date, matchResult, score, agent, map, rank,
  YTLink, localPath; \<^verbatim>\<open>getPrintableTitlesInOrder\<close> returns the nine titles in the same
  order. So \<^verbatim>\<open>create\<close> writes the titles as the first row, every row that
  \<^verbatim>\<open>writeMatchesToExcel\<close> appends has each value under its title, and the column that
  \<^verbatim>\<open>filterOutProcessedMatches\<close> reads (letter I, index 8) holds the local paths.
\<close>

theorem columns_aligned:
  "(\<exists>row titles.
      asTuple e = Inr row \<and> getPrintableTitlesInOrder = Inr titles \<and>
      length row = 9 \<and> length titles = 9 \<and>
      (\<forall>i < 9. \<exists>c. ExcelMatchEntryOrder_call i = Inr c \<and> member_value c = i \<and>
          dict_getitem (entry_dict e) (member_name c) = Inr (row ! i) \<and>
          dict_getitem printableTitles (member_name c) = Inr (titles ! i)) \<and>
      map member_name ExcelMatchEntryOrder_members =
        [''matchId'', ''date'', ''matchResult'', ''score'', ''agent'', ''map'', ''rank'', ''YTLink'',
         ''localPath''] \<and>
      row = [Text (matchId e), Text (date e), Text (matchResult e), Text (score e), Text (agent e),
             Text (map_name e), opt_cell (rank e), opt_cell (YTLink e), opt_cell (localPath e)] \<and>
      create self = Inr (self\<lparr>wb := Some [map Text titles], saved := Some [map Text titles]\<rparr>) \<and>
      (\<exists>k. snd (write_loop (e # ms) sheet) = sheet @ row # map (\<lambda>m. map (entry_field m) ExcelMatchEntryOrder_members) (take k ms)) \<and>
      column_letters ! member_value localPath_col = CHR ''I'' \<and>
      column_index (CHR ''I'') = member_value localPath_col \<and>
      cell_at row (column_index (CHR ''I'')) = opt_cell (localPath e) \<and>
      titles ! column_index (CHR ''I'') = ''Local Path'')"
proof -
  let ?row = "map (entry_field e) ExcelMatchEntryOrder_members"
  let ?titles = "[''Riot Match ID'', ''Date'', ''Match Result'', ''Score'', ''Agent'', ''Map'', ''Rank'',
          ''YouTube Link'', ''Local Path'']"
  have members: "\<forall>i < 9. \<exists>c. ExcelMatchEntryOrder_call i = Inr c \<and> member_value c = i \<and>
          dict_getitem (entry_dict e) (member_name c) = Inr (?row ! i) \<and>
          dict_getitem printableTitles (member_name c) = Inr (?titles ! i)"
  proof (intro allI impI)
    fix i :: nat assume "i < 9"
    then have "i \<in> {0, 1, 2, 3, 4, 5, 6, 7, 8}" by auto
    then show "\<exists>c. ExcelMatchEntryOrder_call i = Inr c \<and> member_value c = i \<and>
          dict_getitem (entry_dict e) (member_name c) = Inr (?row ! i) \<and>
          dict_getitem printableTitles (member_name c) = Inr (?titles ! i)"
      by (auto simp: ExcelMatchEntryOrder_call_def ExcelMatchEntryOrder_members_def
          dict_getitem_def entry_dict_def printableTitles_def)
  qed
  have create: "create self = Inr (self\<lparr>wb := Some [map Text ?titles], saved := Some [map Text ?titles]\<rparr>)"
    by (simp add: create_def titles_in_order sheet_append_def Let_def)
  have written: "snd (write_loop (e # ms) sheet) = sheet @ ?row # map (\<lambda>m. map (entry_field m) ExcelMatchEntryOrder_members) (take 0 ms)"
    by (simp add: write_loop_first_row)
  have row: "?row = [Text (matchId e), Text (date e), Text (matchResult e), Text (score e), Text (agent e),
             Text (map_name e), opt_cell (rank e), opt_cell (YTLink e), opt_cell (localPath e)]"
    by (simp add: ExcelMatchEntryOrder_members_def)
  have names: "map member_name ExcelMatchEntryOrder_members =
        [''matchId'', ''date'', ''matchResult'', ''score'', ''agent'', ''map'', ''rank'', ''YTLink'',
         ''localPath'']"
    by (simp add: ExcelMatchEntryOrder_members_def)
  have cell: "cell_at ?row (column_index (CHR ''I'')) = opt_cell (localPath e)"
    by (simp add: localPath_column_index cell_at_def ExcelMatchEntryOrder_members_def)
  have title: "?titles ! column_index (CHR ''I'') = ''Local Path''"
    by (simp add: localPath_column_index)
  have len: "length ?row = 9"
    by (simp add: ExcelMatchEntryOrder_members_def)
  show ?thesis
    apply (rule exI [of _ ?row])
    apply (rule exI [of _ ?titles])
    apply (intro conjI)
                apply (rule asTuple_fields)
               apply (rule titles_in_order)
              apply (rule len)
             apply simp
            apply (rule members)
           apply (rule names)
          apply (rule row)
         apply (rule create)
        apply (rule exI [of _ 0], rule written)
       apply (rule localPath_letter)
      apply (simp add: localPath_column_index)
     apply (rule cell)
    apply (rule title)
    done
qed

theorem columns_aligned_witness:
  "asTuple \<lparr>matchId = ''id1'', date = ''Jun 13, 2023'', matchResult = ''Win'', score = ''13-4'',
      agent = ''Jett'', map_name = ''Bind'', rank = None, YTLink = Some ''link'',
      localPath = Some ''a.mp4''\<rparr>
     = Inr [Text ''id1'', Text ''Jun 13, 2023'', Text ''Win'', Text ''13-4'', Text ''Jett'',
            Text ''Bind'', Blank, Text ''link'', Text ''a.mp4'']"
  using columns_aligned [of "\<lparr>matchId = ''id1'', date = ''Jun 13, 2023'', matchResult = ''Win'',
      score = ''13-4'', agent = ''Jett'', map_name = ''Bind'', rank = None, YTLink = Some ''link'',
      localPath = Some ''a.mp4''\<rparr>" "\<lparr>wb = None, saved = None\<rparr>" "[]" "[]"]
  by (auto simp: opt_cell_def)


section \<open>Writing the matches and filtering them out again\<close>

lemma writeMatchesToExcel_raises:
  assumes "wb self = Some sheet"
  shows "writeMatchesToExcel self (Some (m # ms)) =
     (Some TypeError, self\<lparr>wb := Some (sheet @ [map (entry_field m) ExcelMatchEntryOrder_members])\<rparr>)"
  using assms by (simp add: writeMatchesToExcel_def write_loop_first_row)

text \<open>
  C2: a workbook is created with its title row and two entries are written to it. The
  write raises TypeError after the row of the first entry and before the workbook is
  saved: a filter on the same object still returns the second path, and after the file is
  opened again the filter returns both paths.
\<close>

theorem write_then_filter_evaluated:
  "(case create \<lparr>wb = None, saved = None\<rparr> of
      Inl err \<Rightarrow> False
    | Inr created \<Rightarrow>
        (case writeMatchesToExcel created
            (Some [\<lparr>matchId = ''id1'', date = ''Jun 13, 2023'', matchResult = ''Win'', score = ''13-4'',
                     agent = ''Jett'', map_name = ''Bind'', rank = Some ''Gold 1'',
                     YTLink = Some ''https://www.youtube.com/watch?v=abc'', localPath = Some ''a.mp4''\<rparr>,
                   \<lparr>matchId = ''id2'', date = ''Jun 14, 2023'', matchResult = ''Loss'', score = ''4-13'',
                     agent = ''Sova'', map_name = ''Haven'', rank = Some ''Gold 1'',
                     YTLink = Some ''https://www.youtube.com/watch?v=def'', localPath = Some ''b.mp4''\<rparr>]) of
           (raised, written) \<Rightarrow>
             raised = Some TypeError \<and>
             filterOutProcessedMatches written [''a.mp4'', ''b.mp4''] = Some [''b.mp4''] \<and>
             saved written = saved created \<and>
             (case open_spreadsheet (\<lambda>n. Load_ok) \<lparr>wb = None, saved = saved written\<rparr> of
                Some (Inr reopened) \<Rightarrow>
                  filterOutProcessedMatches reopened [''a.mp4'', ''b.mp4''] = Some [''a.mp4'', ''b.mp4'']
              | _ \<Rightarrow> False)))"
  by (simp add: create_def titles_in_order sheet_append_def Let_def writeMatchesToExcel_def
      write_loop_first_row ExcelMatchEntryOrder_members_def filterOutProcessedMatches_open
      cell_at_def opt_cell_def open_spreadsheet_def open_loop.simps)


section \<open>The entries of the uploaded games\<close>

text \<open>
  The entry of an uploaded game. When the upload of a game succeeds with video ID \<open>v\<close>,
  the entry that \<^verbatim>\<open>uploadGameToYoutube\<close> appends to the shared list agrees with the game
  on matchId, date, matchResult, score, agent, map, rank and localPath, and its YTLink is
  "https://www.youtube.com/watch?v=" followed by \<open>v\<close>. The same entry is in every list
  that \<^verbatim>\<open>uploadGamesToYoutube\<close> returns when the game's worker ran, and the row built
  from it carries these values.
\<close>

theorem uploaded_entry_agrees_with_game:
  assumes "uploadVideo (queryVideosInsert api (localPath game) (game_title game)) = Inr (Some v)"
  shows "\<exists>gameWithLink.
      snd (uploadGameToYoutube api game playlistID sharedGames) = sharedGames @ [gameWithLink] \<and>
      matchId gameWithLink = matchId game \<and> date gameWithLink = date game \<and>
      matchResult gameWithLink = matchResult game \<and> score gameWithLink = score game \<and>
      agent gameWithLink = agent game \<and> map_name gameWithLink = map_name game \<and>
      rank gameWithLink = rank game \<and> localPath gameWithLink = localPath game \<and>
      YTLink gameWithLink = Some (''https://www.youtube.com/watch?v='' @ v) \<and>
      (\<forall>found created apis schedule games out i.
          uploadGamesToYoutube found created apis schedule games = Inr (Some out) \<and>
          i < length games \<and> i \<in> set schedule \<and> games ! i = game \<and> apis i = api
          \<longrightarrow> gameWithLink \<in> set out) \<and>
      asTuple gameWithLink =
        Inr [Text (matchId game), Text (date game), Text (matchResult game), Text (score game),
             Text (agent game), Text (map_name game), opt_cell (rank game),
             Text (''https://www.youtube.com/watch?v='' @ v), opt_cell (localPath game)]"
proof -
  let ?g = "game\<lparr>YTLink := Some (''https://www.youtube.com/watch?v='' @ v)\<rparr>"
  have app: "appended api game = [?g]"
    using assms by (simp add: appended_cases)
  have 1: "snd (uploadGameToYoutube api game playlistID sharedGames) = sharedGames @ [?g]"
    by (simp add: worker_appends app)
  have 2: "?g \<in> set out"
    if "uploadGamesToYoutube found created apis schedule games = Inr (Some out) \<and>
          i < length games \<and> i \<in> set schedule \<and> games ! i = game \<and> apis i = api"
    for found created apis schedule games out i
  proof -
    from that obtain pid where "out = run_workers apis games pid schedule []"
      by (auto simp: uploadGamesToYoutube_def Let_def split: option.splits)
    with that app show ?thesis
      by (auto simp: run_workers_concat intro!: bexI [of _ i])
  qed
  have 3: "asTuple ?g =
        Inr [Text (matchId game), Text (date game), Text (matchResult game), Text (score game),
             Text (agent game), Text (map_name game), opt_cell (rank game),
             Text (''https://www.youtube.com/watch?v='' @ v), opt_cell (localPath game)]"
    by (simp add: asTuple_fields ExcelMatchEntryOrder_members_def opt_cell_def)
  show ?thesis
    apply (rule exI [of _ ?g])
    apply (intro conjI)
               apply (rule 1)
              apply simp_all[9]
     apply (intro allI impI, erule 2)
    apply (rule 3)
    done
qed

theorem uploaded_entry_agrees_with_game_witness:
  "snd (uploadGameToYoutube
      \<lparr>queryVideosInsert = (\<lambda>p t. Inr (Some ''abc'')), queryPlaylistItemsInsert = (\<lambda>v p. Inr None)\<rparr>
      \<lparr>matchId = ''id1'', date = ''Jun 13, 2023'', matchResult = ''Win'', score = ''13-4'',
        agent = ''Jett'', map_name = ''Bind'', rank = Some ''Gold 1'', YTLink = None,
        localPath = Some ''a.mp4''\<rparr> (Some ''PL1'') [])
   = [\<lparr>matchId = ''id1'', date = ''Jun 13, 2023'', matchResult = ''Win'', score = ''13-4'',
        agent = ''Jett'', map_name = ''Bind'', rank = Some ''Gold 1'',
        YTLink = Some ''https://www.youtube.com/watch?v=abc'', localPath = Some ''a.mp4''\<rparr>]"
  using uploaded_entry_agrees_with_game
    [of "\<lparr>queryVideosInsert = (\<lambda>p t. Inr (Some ''abc'')), queryPlaylistItemsInsert = (\<lambda>v p. Inr None)\<rparr>"
        "\<lparr>matchId = ''id1'', date = ''Jun 13, 2023'', matchResult = ''Win'', score = ''13-4'',
        agent = ''Jett'', map_name = ''Bind'', rank = Some ''Gold 1'', YTLink = None,
        localPath = Some ''a.mp4''\<rparr>" "''abc''" "Some ''PL1''" "[]"]
  by (simp add: uploadVideo_def uploadGameToYoutube_def addVideoToPlaylist_def)

text \<open>
  C5: two games are uploaded, both with success, and the returned list is written to a
  workbook that \<^verbatim>\<open>create\<close> has made. Both returned entries agree with their games and
  carry the link of their video. The write appends the row of the first entry, with these
  values, and raises TypeError: the second entry is never written as a row, and the
  workbook is not saved.
\<close>

theorem second_upload_never_written:
  "(case uploadGamesToYoutube (Some ''PL1'') None
          (\<lambda>i. \<lparr>queryVideosInsert = (\<lambda>p t. Inr (Some (if p = Some ''a.mp4'' then ''abc'' else ''def''))),
                queryPlaylistItemsInsert = (\<lambda>v p. Inr None)\<rparr>)
          [0, 1]
          [\<lparr>matchId = ''id1'', date = ''Jun 13, 2023'', matchResult = ''Win'', score = ''13-4'',
             agent = ''Jett'', map_name = ''Bind'', rank = Some ''Gold 1'', YTLink = None,
             localPath = Some ''a.mp4''\<rparr>,
           \<lparr>matchId = ''id2'', date = ''Jun 14, 2023'', matchResult = ''Loss'', score = ''4-13'',
             agent = ''Sova'', map_name = ''Haven'', rank = Some ''Gold 1'', YTLink = None,
             localPath = Some ''b.mp4''\<rparr>] of
      Inr (Some uploaded) \<Rightarrow>
        uploaded =
          [\<lparr>matchId = ''id1'', date = ''Jun 13, 2023'', matchResult = ''Win'', score = ''13-4'',
             agent = ''Jett'', map_name = ''Bind'', rank = Some ''Gold 1'',
             YTLink = Some ''https://www.youtube.com/watch?v=abc'', localPath = Some ''a.mp4''\<rparr>,
           \<lparr>matchId = ''id2'', date = ''Jun 14, 2023'', matchResult = ''Loss'', score = ''4-13'',
             agent = ''Sova'', map_name = ''Haven'', rank = Some ''Gold 1'',
             YTLink = Some ''https://www.youtube.com/watch?v=def'', localPath = Some ''b.mp4''\<rparr>] \<and>
        (case create \<lparr>wb = None, saved = None\<rparr> of
           Inl err \<Rightarrow> False
         | Inr created \<Rightarrow>
             (case writeMatchesToExcel created (Some uploaded) of
                (raised, written) \<Rightarrow>
                  raised = Some TypeError \<and>
                  wb written =
                    Some [[Text ''Riot Match ID'', Text ''Date'', Text ''Match Result'', Text ''Score'',
                           Text ''Agent'', Text ''Map'', Text ''Rank'', Text ''YouTube Link'',
                           Text ''Local Path''],
                          [Text ''id1'', Text ''Jun 13, 2023'', Text ''Win'', Text ''13-4'',
                           Text ''Jett'', Text ''Bind'', Text ''Gold 1'',
                           Text ''https://www.youtube.com/watch?v=abc'', Text ''a.mp4'']] \<and>
                  saved written =
                    Some [[Text ''Riot Match ID'', Text ''Date'', Text ''Match Result'', Text ''Score'',
                           Text ''Agent'', Text ''Map'', Text ''Rank'', Text ''YouTube Link'',
                           Text ''Local Path'']]))
    | _ \<Rightarrow> False)"
  by (simp add: uploadGamesToYoutube_def uploadGameToYoutube_def uploadVideo_def
      addVideoToPlaylist_def upt_conv_Cons Let_def create_def titles_in_order sheet_append_def
      writeMatchesToExcel_def write_loop_first_row ExcelMatchEntryOrder_members_def opt_cell_def)

lemma appended_has_link: "e \<in> set (appended api game) \<Longrightarrow> YTLink e \<noteq> None"
  by (simp add: appended_cases split: sum.splits option.splits) auto

lemma returned_entries_have_links:
  assumes "uploadGamesToYoutube gp cp api sched games = Inr (Some out)"
  shows "\<forall>e \<in> set out. YTLink e \<noteq> None"
proof
  fix e assume e: "e \<in> set out"
  from assms obtain pid where "out = run_workers api games pid sched []"
    by (auto simp: uploadGamesToYoutube_def Let_def split: option.splits)
  with e have "e \<in> set (concat (map (\<lambda>i. if i < length games then appended (api i) (games ! i) else []) sched))"
    by (simp add: run_workers_concat)
  then obtain i where "e \<in> set (if i < length games then appended (api i) (games ! i) else [])"
    unfolding set_concat by auto
  then have "e \<in> set (appended (api i) (games ! i))"
    by (cases "i < length games") simp_all
  then show "YTLink e \<noteq> None" by (rule appended_has_link)
qed

lemma written_rows_from_list:
  "\<exists>rows. snd (write_loop out sheet) = sheet @ rows \<and> (\<forall>r \<in> set rows. \<exists>e \<in> set out. asTuple e = Inr r)"
proof (cases out)
  case Nil
  then show ?thesis by (intro exI [of _ "[]"]) simp
next
  case (Cons e es)
  then show ?thesis
    by (intro exI [of _ "[map (entry_field e) ExcelMatchEntryOrder_members]"])
      (simp add: write_loop_first_row asTuple_fields)
qed


text \<open>
  C10: when \<^verbatim>\<open>uploadVideo\<close> returns \<^verbatim>\<open>None\<close> for a game, \<^verbatim>\<open>uploadGameToYoutube\<close>
  returns without raising and leaves the shared list as it was. A list returned by
  \<^verbatim>\<open>uploadGamesToYoutube\<close>, each worker having run once, holds one entry with a link for
  each game whose upload succeeded and nothing else, and every row that
  \<^verbatim>\<open>writeMatchesToExcel\<close> appends from it is the row of one of these entries.
\<close>

theorem failed_uploads_are_dropped:
  "(uploadVideo (queryVideosInsert api (localPath game) (game_title game)) = Inr None \<longrightarrow>
      uploadGameToYoutube api game playlistID sharedGames = (None, sharedGames)) \<and>
   (uploadGamesToYoutube found created apis schedule games = Inr (Some out) \<and>
    mset schedule = mset [0 ..< length games] \<longrightarrow>
      mset out = mset (concat (map (\<lambda>i.
          case uploadVideo (queryVideosInsert (apis i) (localPath (games ! i)) (game_title (games ! i))) of
            Inr (Some videoID) \<Rightarrow>
              [(games ! i)\<lparr>YTLink := Some (''https://www.youtube.com/watch?v='' @ videoID)\<rparr>]
          | _ \<Rightarrow> []) [0 ..< length games])) \<and>
      (\<forall>e \<in> set out. YTLink e \<noteq> None) \<and>
      (\<forall>sheet. \<exists>rows. snd (write_loop out sheet) = sheet @ rows \<and>
          (\<forall>r \<in> set rows. \<exists>e \<in> set out. asTuple e = Inr r)))"
proof (intro conjI impI)
  assume "uploadVideo (queryVideosInsert api (localPath game) (game_title game)) = Inr None"
  then show "uploadGameToYoutube api game playlistID sharedGames = (None, sharedGames)"
    by (simp add: uploadGameToYoutube_def)
next
  assume a: "uploadGamesToYoutube found created apis schedule games = Inr (Some out) \<and>
    mset schedule = mset [0 ..< length games]"
  then have r: "uploadGamesToYoutube found created apis schedule games = Inr (Some out)"
    and s: "mset schedule = mset [0 ..< length games]"
    by blast+
  show "mset out = mset (concat (map (\<lambda>i.
          case uploadVideo (queryVideosInsert (apis i) (localPath (games ! i)) (game_title (games ! i))) of
            Inr (Some videoID) \<Rightarrow>
              [(games ! i)\<lparr>YTLink := Some (''https://www.youtube.com/watch?v='' @ videoID)\<rparr>]
          | _ \<Rightarrow> []) [0 ..< length games]))"
    using uploadGamesToYoutube_returned [OF r s] unfolding appended_cases .
  show "\<forall>e \<in> set out. YTLink e \<noteq> None"
    by (rule returned_entries_have_links [OF r])
  show "\<forall>sheet. \<exists>rows. snd (write_loop out sheet) = sheet @ rows \<and>
          (\<forall>r \<in> set rows. \<exists>e \<in> set out. asTuple e = Inr r)"
    by (intro allI written_rows_from_list)
qed

theorem failed_uploads_are_dropped_witness:
  "uploadGameToYoutube
      \<lparr>queryVideosInsert = (\<lambda>p t. Inl (HttpError 403)), queryPlaylistItemsInsert = (\<lambda>v p. Inr None)\<rparr>
      \<lparr>matchId = ''id1'', date = ''Jun 13, 2023'', matchResult = ''Win'', score = ''13-4'',
        agent = ''Jett'', map_name = ''Bind'', rank = Some ''Gold 1'', YTLink = None,
        localPath = Some ''a.mp4''\<rparr> (Some ''PL1'') [] = (None, []) \<and>
   uploadGamesToYoutube (Some ''PL1'') None
      (\<lambda>i. if i = 0
            then \<lparr>queryVideosInsert = (\<lambda>p t. Inl (HttpError 403)), queryPlaylistItemsInsert = (\<lambda>v p. Inr None)\<rparr>
            else \<lparr>queryVideosInsert = (\<lambda>p t. Inr (Some ''abc'')), queryPlaylistItemsInsert = (\<lambda>v p. Inr None)\<rparr>)
      [1, 0]
      [\<lparr>matchId = ''id1'', date = ''Jun 13, 2023'', matchResult = ''Win'', score = ''13-4'',
        agent = ''Jett'', map_name = ''Bind'', rank = Some ''Gold 1'', YTLink = None,
        localPath = Some ''a.mp4''\<rparr>,
       \<lparr>matchId = ''id2'', date = ''Jun 14, 2023'', matchResult = ''Loss'', score = ''4-13'',
        agent = ''Sova'', map_name = ''Haven'', rank = None, YTLink = None,
        localPath = Some ''b.mp4''\<rparr>]
     = Inr (Some [\<lparr>matchId = ''id2'', date = ''Jun 14, 2023'', matchResult = ''Loss'', score = ''4-13'',
        agent = ''Sova'', map_name = ''Haven'', rank = None,
        YTLink = Some ''https://www.youtube.com/watch?v=abc'', localPath = Some ''b.mp4''\<rparr>])"
  using failed_uploads_are_dropped
    [of "\<lparr>queryVideosInsert = (\<lambda>p t. Inl (HttpError 403)), queryPlaylistItemsInsert = (\<lambda>v p. Inr None)\<rparr>"
        "\<lparr>matchId = ''id1'', date = ''Jun 13, 2023'', matchResult = ''Win'', score = ''13-4'',
        agent = ''Jett'', map_name = ''Bind'', rank = Some ''Gold 1'', YTLink = None,
        localPath = Some ''a.mp4''\<rparr>" "Some ''PL1''" "[]"]
  by (simp add: uploadVideo_def uploadGameToYoutube_def addVideoToPlaylist_def
      uploadGamesToYoutube_def upt_conv_Cons)


section \<open>Retrying a failing upload\<close>

lemma map_upt_Suc_shift: "map f [0 ..< Suc m] = f 0 # map (\<lambda>j. f (Suc j)) [0 ..< m]"
  by (simp only: upt_conv_Cons [of 0 "Suc m"] zero_less_Suc if_True list.map map_Suc_upt [symmetric] map_map o_def)

lemma server_error_step:
  assumes "execute (executes w) = Http_error status" "500 \<le> status" "retry < retries"
  shows "resumable_loop execute random retries error retry w =
     resumable_loop execute random retries True (Suc retry)
       (w\<lparr>executes := Suc (executes w), randoms := Suc (randoms w),
          slept := slept w @ [random (randoms w) * 2 ^ Suc retry]\<rparr>)"
  using assms
  by (subst resumable_loop.simps) (simp add: resumable_step_def backoff_def Let_def)

lemma server_errors_loop:
  assumes "\<forall>n < m. \<exists>status \<ge> 500. execute (executes w + n) = Http_error status"
    and "retry + m \<le> retries"
  shows "resumable_loop execute random retries error retry w =
     resumable_loop execute random retries (error \<or> 0 < m) (retry + m)
       (w\<lparr>executes := executes w + m, randoms := randoms w + m,
          slept := slept w @ map (\<lambda>j. random (randoms w + j) * 2 ^ (retry + j + 1)) [0 ..< m]\<rparr>)"
  using assms
proof (induction m arbitrary: error retry w)
  case 0
  then show ?case by simp
next
  case (Suc m)
  from Suc.prems(1) obtain status where st: "execute (executes w) = Http_error status" "500 \<le> status"
    by (metis add.right_neutral zero_less_Suc)
  let ?w = "w\<lparr>executes := Suc (executes w), randoms := Suc (randoms w),
          slept := slept w @ [random (randoms w) * 2 ^ Suc retry]\<rparr>"
  have 1: "resumable_loop execute random retries error retry w =
     resumable_loop execute random retries True (Suc retry) ?w"
    using st Suc.prems(2) by (intro server_error_step) auto
  have 2: "\<forall>n < m. \<exists>status \<ge> 500. execute (executes ?w + n) = Http_error status"
    using Suc.prems(1) by (auto simp: less_Suc_eq_0_disj)
  have 3: "Suc retry + m \<le> retries" using Suc.prems(2) by simp
  show ?case
    unfolding 1 Suc.IH [OF 2 3, of True] map_upt_Suc_shift
    by simp
qed

lemma gives_up_after_retries:
  assumes "\<forall>n \<le> retries. \<exists>status \<ge> 500. execute (executes w + n) = Http_error status"
  shows "resumable_upload execute random retries w =
     Some (Inr None,
       w\<lparr>executes := executes w + retries + 1, randoms := randoms w + retries,
         slept := slept w @ map (\<lambda>j. random (randoms w + j) * 2 ^ (j + 1)) [0 ..< retries]\<rparr>)"
proof -
  let ?w = "w\<lparr>executes := executes w + retries, randoms := randoms w + retries,
          slept := slept w @ map (\<lambda>j. random (randoms w + j) * 2 ^ (0 + j + 1)) [0 ..< retries]\<rparr>"
  have 1: "resumable_loop execute random retries False 0 w =
      resumable_loop execute random retries (False \<or> 0 < retries) (0 + retries) ?w"
    using assms by (intro server_errors_loop) auto
  from assms obtain status where st: "execute (executes w + retries) = Http_error status" "500 \<le> status"
    by blast
  have 2: "resumable_loop execute random retries e (0 + retries) ?w =
      Some (Inr None, ?w\<lparr>executes := Suc (executes ?w)\<rparr>)" for e
    using st by (subst resumable_loop.simps) (simp add: resumable_step_def backoff_def Let_def)
  have "resumable_upload execute random retries w =
      Some (Inr None, ?w\<lparr>executes := Suc (executes ?w)\<rparr>)"
    unfolding resumable_upload_def 1 by (rule 2)
  then show ?thesis by simp
qed

lemma client_error_raised:
  assumes "\<forall>n < k. \<exists>s \<ge> 500. execute (executes w + n) = Http_error s"
    and "k \<le> retries" and "execute (executes w + k) = Http_error status" and "status < 500"
  shows "resumable_upload execute random retries w =
     Some (Inl (HttpError status),
       w\<lparr>executes := executes w + k + 1, randoms := randoms w + k,
         slept := slept w @ map (\<lambda>j. random (randoms w + j) * 2 ^ (j + 1)) [0 ..< k]\<rparr>)"
proof -
  let ?w = "w\<lparr>executes := executes w + k, randoms := randoms w + k,
          slept := slept w @ map (\<lambda>j. random (randoms w + j) * 2 ^ (0 + j + 1)) [0 ..< k]\<rparr>"
  have 1: "resumable_loop execute random retries False 0 w =
      resumable_loop execute random retries (False \<or> 0 < k) (0 + k) ?w"
    using assms(1,2) by (intro server_errors_loop) auto
  have 2: "resumable_loop execute random retries e (0 + k) ?w =
      Some (Inl (HttpError status), ?w\<lparr>executes := Suc (executes ?w)\<rparr>)" for e
    using assms(3,4) by (subst resumable_loop.simps) (simp add: resumable_step_def Let_def)
  have "resumable_upload execute random retries w =
      Some (Inl (HttpError status), ?w\<lparr>executes := Suc (executes ?w)\<rparr>)"
    unfolding resumable_upload_def 1 by (rule 2)
  then show ?thesis by simp
qed

lemma decorated_returns:
  assumes "resumable_upload execute random default_retries w = Some (Inr r, w')"
  shows "queryVideosInsert_decorated False execute random w = Some (Inr r, w')"
  using assms by (simp add: queryVideosInsert_decorated_def retryAPIWithDelay_def numeral_3_eq_3)

lemma decorated_raises_client_error:
  assumes "resumable_upload execute random default_retries w = Some (Inl (HttpError status), w')"
    and "status < 500"
  shows "queryVideosInsert_decorated False execute random w = Some (Inl (HttpError status), w')"
  using assms by (simp add: queryVideosInsert_decorated_def retryAPIWithDelay_def numeral_3_eq_3)

lemma ends_after_server_errors:
  assumes "\<forall>n < k. \<exists>s \<ge> 500. execute (executes w + n) = Http_error s"
    and "k \<le> retries"
    and "execute (executes w + k) = Other_exception \<and> r = Inl OtherError
       \<or> (\<exists>response. execute (executes w + k) = Response response \<and> r = Inr response)
       \<or> (\<exists>status < 500. execute (executes w + k) = Http_error status \<and> r = Inl (HttpError status))"
  shows "resumable_upload execute random retries w =
     Some (r,
       w\<lparr>executes := executes w + k + 1, randoms := randoms w + k,
         slept := slept w @ map (\<lambda>j. random (randoms w + j) * 2 ^ (j + 1)) [0 ..< k]\<rparr>)"
proof -
  let ?w = "w\<lparr>executes := executes w + k, randoms := randoms w + k,
          slept := slept w @ map (\<lambda>j. random (randoms w + j) * 2 ^ (0 + j + 1)) [0 ..< k]\<rparr>"
  have 1: "resumable_loop execute random retries False 0 w =
      resumable_loop execute random retries (False \<or> 0 < k) (0 + k) ?w"
    using assms(1,2) by (intro server_errors_loop) auto
  have 2: "resumable_loop execute random retries e (0 + k) ?w =
      Some (r, ?w\<lparr>executes := Suc (executes ?w)\<rparr>)" for e
    using assms(3) by (subst resumable_loop.simps) (auto simp add: resumable_step_def Let_def)
  have "resumable_upload execute random retries w =
      Some (r, ?w\<lparr>executes := Suc (executes ?w)\<rparr>)"
    unfolding resumable_upload_def 1 by (rule 2)
  then show ?thesis by simp
qed

lemma decorated_raises_other:
  assumes "resumable_upload execute random default_retries w = Some (Inl OtherError, w')"
  shows "queryVideosInsert_decorated False execute random w = Some (Inl OtherError, w')"
  using assms by (simp add: queryVideosInsert_decorated_def retryAPIWithDelay_def numeral_3_eq_3)

text \<open>
  C3, as the code has it: an upload whose every execution raises HttpError with a status
  of 500 or more is executed once and retried \<open>retries = 5\<close> more times; before the
  retry number \<open>retry\<close> it sleeps \<open>random() * 2 ^ retry\<close> seconds, less than
  \<open>2 ^ retry\<close>; then \<^verbatim>\<open>resumable_upload\<close> returns \<^verbatim>\<open>None\<close>, and so do the decorated
  \<^verbatim>\<open>queryVideosInsert\<close> and \<^verbatim>\<open>uploadVideo\<close>. Every other failure ends the upload at
  the execution that met it, with no sleep and no execution after it: an HttpError with a
  status below 500 and an exception that is no HttpError are raised, and raised again by
  the decorator; a response without an \<^verbatim>\<open>id\<close> is reported as failed at once.
\<close>

theorem failing_upload_retried_with_backoff:
  "((\<forall>n \<le> default_retries. \<exists>status \<ge> 500. execute n = Http_error status) \<and>
    (\<forall>n. 0 \<le> random n \<and> random n < 1) \<longrightarrow>
      (\<exists>w. resumable_upload execute random default_retries \<lparr>executes = 0, randoms = 0, slept = []\<rparr>
              = Some (Inr None, w) \<and>
           default_retries = 5 \<and> executes w = 1 + 5 \<and>
           slept w = map (\<lambda>retry. random (retry - 1) * 2 ^ retry) [1 ..< 6] \<and>
           (\<forall>retry \<in> {1 .. 5}. 0 \<le> slept w ! (retry - 1) \<and> slept w ! (retry - 1) < 2 ^ retry) \<and>
           queryVideosInsert_decorated False execute random \<lparr>executes = 0, randoms = 0, slept = []\<rparr>
              = Some (Inr None, w) \<and>
           uploadVideo (Inr None) = Inr None)) \<and>
   (k \<le> default_retries \<and> (\<forall>n < k. \<exists>s \<ge> 500. execute n = Http_error s) \<and>
    execute k = Http_error status \<and> status < 500 \<longrightarrow>
      (\<exists>w. resumable_upload execute random default_retries \<lparr>executes = 0, randoms = 0, slept = []\<rparr>
              = Some (Inl (HttpError status), w) \<and>
           executes w = k + 1 \<and> length (slept w) = k \<and>
           queryVideosInsert_decorated False execute random \<lparr>executes = 0, randoms = 0, slept = []\<rparr>
              = Some (Inl (HttpError status), w))) \<and>
   (k \<le> default_retries \<and> (\<forall>n < k. \<exists>s \<ge> 500. execute n = Http_error s) \<and>
    execute k = Other_exception \<longrightarrow>
      (\<exists>w. resumable_upload execute random default_retries \<lparr>executes = 0, randoms = 0, slept = []\<rparr>
              = Some (Inl OtherError, w) \<and>
           executes w = k + 1 \<and> length (slept w) = k \<and>
           queryVideosInsert_decorated False execute random \<lparr>executes = 0, randoms = 0, slept = []\<rparr>
              = Some (Inl OtherError, w) \<and>
           uploadVideo (Inl OtherError) = Inl OtherError)) \<and>
   (k \<le> default_retries \<and> (\<forall>n < k. \<exists>s \<ge> 500. execute n = Http_error s) \<and>
    execute k = Response None \<longrightarrow>
      (\<exists>w. resumable_upload execute random default_retries \<lparr>executes = 0, randoms = 0, slept = []\<rparr>
              = Some (Inr None, w) \<and>
           executes w = k + 1 \<and> length (slept w) = k \<and>
           queryVideosInsert_decorated False execute random \<lparr>executes = 0, randoms = 0, slept = []\<rparr>
              = Some (Inr None, w)))"
proof (intro conjI impI)
  let ?init = "\<lparr>executes = 0, randoms = 0, slept = []\<rparr>"
  assume a: "(\<forall>n \<le> default_retries. \<exists>status \<ge> 500. execute n = Http_error status) \<and>
    (\<forall>n. 0 \<le> random n \<and> random n < 1)"
  let ?w = "?init\<lparr>executes := executes ?init + default_retries + 1, randoms := randoms ?init + default_retries,
         slept := slept ?init @ map (\<lambda>j. random (randoms ?init + j) * 2 ^ (j + 1)) [0 ..< default_retries]\<rparr>"
  have r: "resumable_upload execute random default_retries ?init = Some (Inr None, ?w)"
    using a by (intro gives_up_after_retries) simp
  have s: "slept ?w = map (\<lambda>retry. random (retry - 1) * 2 ^ retry) [1 ..< 6]"
    by (simp add: default_retries_def upt_conv_Cons)
  have b: "\<forall>retry \<in> {1 .. 5}. 0 \<le> slept ?w ! (retry - 1) \<and> slept ?w ! (retry - 1) < 2 ^ retry"
  proof
    fix retry :: nat assume "retry \<in> {1 .. 5}"
    then have i: "retry - 1 < 5" "Suc (retry - 1) = retry" by auto
    have "slept ?w ! (retry - 1) = random (retry - 1) * 2 ^ Suc (retry - 1)"
      using i(1) by (simp add: default_retries_def)
    then have "slept ?w ! (retry - 1) = random (retry - 1) * 2 ^ retry"
      by (simp only: i(2))
    moreover have r0: "0 \<le> random (retry - 1)" and r1: "random (retry - 1) < 1"
      using a by blast+
    have p: "(0::rat) < 2 ^ retry" by simp
    have "0 \<le> random (retry - 1) * 2 ^ retry"
      using r0 p by (intro mult_nonneg_nonneg) simp_all
    moreover have "random (retry - 1) * 2 ^ retry < 1 * 2 ^ retry"
      using r1 p by (rule mult_strict_right_mono)
    ultimately show "0 \<le> slept ?w ! (retry - 1) \<and> slept ?w ! (retry - 1) < 2 ^ retry"
      by simp
  qed
  show "\<exists>w. resumable_upload execute random default_retries ?init = Some (Inr None, w) \<and>
           default_retries = 5 \<and> executes w = 1 + 5 \<and>
           slept w = map (\<lambda>retry. random (retry - 1) * 2 ^ retry) [1 ..< 6] \<and>
           (\<forall>retry \<in> {1 .. 5}. 0 \<le> slept w ! (retry - 1) \<and> slept w ! (retry - 1) < 2 ^ retry) \<and>
           queryVideosInsert_decorated False execute random ?init = Some (Inr None, w) \<and>
           uploadVideo (Inr None) = Inr None"
    apply (rule exI [of _ ?w])
    apply (intro conjI)
          apply (rule r)
         apply (simp add: default_retries_def)
        apply (simp add: default_retries_def)
       apply (rule s)
      apply (rule b)
     apply (rule decorated_returns [OF r])
    apply (simp add: uploadVideo_def)
    done
next
  let ?init = "\<lparr>executes = 0, randoms = 0, slept = []\<rparr>"
  assume a: "k \<le> default_retries \<and> (\<forall>n < k. \<exists>s \<ge> 500. execute n = Http_error s) \<and>
    execute k = Http_error status \<and> status < 500"
  let ?w = "?init\<lparr>executes := executes ?init + k + 1, randoms := randoms ?init + k,
         slept := slept ?init @ map (\<lambda>j. random (randoms ?init + j) * 2 ^ (j + 1)) [0 ..< k]\<rparr>"
  have r: "resumable_upload execute random default_retries ?init = Some (Inl (HttpError status), ?w)"
    using a by (intro ends_after_server_errors) simp_all
  show "\<exists>w. resumable_upload execute random default_retries ?init = Some (Inl (HttpError status), w) \<and>
           executes w = k + 1 \<and> length (slept w) = k \<and>
           queryVideosInsert_decorated False execute random ?init = Some (Inl (HttpError status), w)"
    apply (rule exI [of _ ?w])
    apply (intro conjI)
       apply (rule r)
      apply simp
     apply simp
    apply (rule decorated_raises_client_error [OF r])
    using a apply simp
    done
next
  let ?init = "\<lparr>executes = 0, randoms = 0, slept = []\<rparr>"
  assume a: "k \<le> default_retries \<and> (\<forall>n < k. \<exists>s \<ge> 500. execute n = Http_error s) \<and>
    execute k = Other_exception"
  let ?w = "?init\<lparr>executes := executes ?init + k + 1, randoms := randoms ?init + k,
         slept := slept ?init @ map (\<lambda>j. random (randoms ?init + j) * 2 ^ (j + 1)) [0 ..< k]\<rparr>"
  have r: "resumable_upload execute random default_retries ?init = Some (Inl OtherError, ?w)"
    using a by (intro ends_after_server_errors) simp_all
  show "\<exists>w. resumable_upload execute random default_retries ?init = Some (Inl OtherError, w) \<and>
           executes w = k + 1 \<and> length (slept w) = k \<and>
           queryVideosInsert_decorated False execute random ?init = Some (Inl OtherError, w) \<and>
           uploadVideo (Inl OtherError) = Inl OtherError"
    apply (rule exI [of _ ?w])
    apply (intro conjI)
        apply (rule r)
       apply simp
      apply simp
     apply (rule decorated_raises_other [OF r])
    apply (simp add: uploadVideo_def)
    done
next
  let ?init = "\<lparr>executes = 0, randoms = 0, slept = []\<rparr>"
  assume a: "k \<le> default_retries \<and> (\<forall>n < k. \<exists>s \<ge> 500. execute n = Http_error s) \<and>
    execute k = Response None"
  let ?w = "?init\<lparr>executes := executes ?init + k + 1, randoms := randoms ?init + k,
         slept := slept ?init @ map (\<lambda>j. random (randoms ?init + j) * 2 ^ (j + 1)) [0 ..< k]\<rparr>"
  have r: "resumable_upload execute random default_retries ?init = Some (Inr None, ?w)"
    using a by (intro ends_after_server_errors) simp_all
  show "\<exists>w. resumable_upload execute random default_retries ?init = Some (Inr None, w) \<and>
           executes w = k + 1 \<and> length (slept w) = k \<and>
           queryVideosInsert_decorated False execute random ?init = Some (Inr None, w)"
    apply (rule exI [of _ ?w])
    apply (intro conjI)
       apply (rule r)
      apply simp
     apply simp
    apply (rule decorated_returns [OF r])
    done
qed

theorem failing_upload_retried_with_backoff_witness:
  "\<exists>w. resumable_upload (\<lambda>n. Http_error 503) (\<lambda>n. 1 / 2) default_retries
          \<lparr>executes = 0, randoms = 0, slept = []\<rparr> = Some (Inr None, w) \<and>
       executes w = 6 \<and> slept w = [1, 2, 4, 8, 16]"
proof -
  have h: "(\<forall>n \<le> default_retries. \<exists>status \<ge> 500. Http_error 503 = Http_error status) \<and>
      (\<forall>n::nat. (0::rat) \<le> 1 / 2 \<and> (1 / 2 :: rat) < 1)"
    by simp
  from failing_upload_retried_with_backoff
      [of "\<lambda>n. Http_error 503" "\<lambda>n. 1 / 2" 0 0, THEN conjunct1, THEN mp, OF h]
  obtain w where w: "resumable_upload (\<lambda>n. Http_error 503) (\<lambda>n. 1 / 2) default_retries
          \<lparr>executes = 0, randoms = 0, slept = []\<rparr> = Some (Inr None, w)"
    "executes w = 1 + 5" "slept w = map (\<lambda>retry. (1 / 2) * 2 ^ retry) [1 ..< 6]"
    by blast
  have "map (\<lambda>retry. (1 / 2 :: rat) * 2 ^ retry) [1 ..< 6] = [1, 2, 4, 8, 16]"
    by (simp add: upt_conv_Cons)
  with w show ?thesis
    by (intro exI [of _ w]) simp
qed

text \<open>
  The claim as stated fails for an upload whose executions fail with an exception that is
  no HttpError: the first execution raises it, nothing is retried and \<^verbatim>\<open>None\<close> is not
  returned.
\<close>

theorem network_failure_not_retried_counterexample:
  "resumable_upload network_failure random_half default_retries
      \<lparr>executes = 0, randoms = 0, slept = []\<rparr>
     = Some (Inl OtherError, \<lparr>executes = 1, randoms = 0, slept = []\<rparr>)"
  by (simp add: resumable_upload_def resumable_loop.simps resumable_step_def network_failure_def)


section \<open>Fetching the match list\<close>

lemma py_min_Min: "xs \<noteq> [] \<Longrightarrow> py_min xs = Inr (Min (set xs))"
proof (cases xs)
  case Nil
  assume "xs \<noteq> []"
  with Nil show ?thesis by simp
next
  case (Cons a list)
  have "fold min list a = Min (set (a # list))"
    by (rule Min.set_eq_fold [symmetric])
  with Cons show ?thesis by simp
qed

lemma py_getitem_last:
  assumes "xs \<noteq> []" shows "py_getitem xs (int (length xs) - 1) = Inr (last xs)"
proof -
  from assms have l: "0 < length xs" by simp
  then have "nat (int (length xs) - 1) = length xs - 1" by simp
  with l show ?thesis
    by (simp add: py_getitem_def last_conv_nth assms)
qed

lemma upt_from_page: "page \<le> n \<Longrightarrow> [page ..< Suc n] = page # [Suc page ..< Suc n]"
  by (simp add: upt_conv_Cons)

lemma pairings_loop_first_stop:
  fixes get_matchlist :: "nat \<Rightarrow> nat \<Rightarrow> string option \<Rightarrow> matchlist option"
  defines "from_pages u lvd th P ps \<equiv>
     concat (map (\<lambda>p. case P p of None \<Rightarrow> []
        | Some pg \<Rightarrow> compare_matchlist_with_video_dates u (data pg) lvd th) ps)"
  assumes "of_int oldest < om" and "page \<le> n"
    and "\<forall>p. page \<le> p \<and> p < n \<longrightarrow> page_continues u oldest (get_matchlist pageSize p gameMode)"
    and "\<not> page_continues u oldest (get_matchlist pageSize n gameMode)"
  shows "pairings_loop u get_matchlist lvd gameMode pageSize th oldest om page acc reqs =
        Some (case get_matchlist pageSize n gameMode of
                None \<Rightarrow> Exited
              | Some pg \<Rightarrow>
                  (case py_getitem (data pg) (results_returned pg - 1) of
                     Inl err \<Rightarrow> Raised err
                   | Inr m \<Rightarrow> Returned (acc @ from_pages u lvd th
                                (\<lambda>p. get_matchlist pageSize p gameMode) [page ..< Suc n])),
              reqs @ map (\<lambda>p. (pageSize, p)) [page ..< Suc n])"
  using assms(2-)
proof (induction "n - page" arbitrary: page om acc reqs)
  case 0
  then have pn: "page = n" by simp
  let ?P = "\<lambda>p. get_matchlist pageSize p gameMode"
  show ?case
  proof (cases "?P n")
    case None
    then show ?thesis
      using "0.prems"(1) pn by (subst pairings_loop.simps) (simp add: pairings_step_def)
  next
    case (Some pg)
    show ?thesis
    proof (cases "py_getitem (data pg) (results_returned pg - 1)")
      case (Inl err)
      then show ?thesis
        using "0.prems"(1) pn Some by (subst pairings_loop.simps) (simp add: pairings_step_def Let_def)
    next
      case (Inr m)
      show ?thesis
      proof (cases "results_returned pg = results_after pg")
        case True
        then show ?thesis
          using "0.prems"(1) pn Some Inr
          by (subst pairings_loop.simps) (simp add: pairings_step_def Let_def from_pages_def)
      next
        case False
        with "0.prems"(4) Some Inr pn have old: "\<not> of_int oldest < u (meta_started_at m)"
          by (simp add: page_continues_def)
        have "pairings_loop u get_matchlist lvd gameMode pageSize th oldest om page acc reqs =
            pairings_loop u get_matchlist lvd gameMode pageSize th oldest (u (meta_started_at m))
              (Suc page) (acc @ compare_matchlist_with_video_dates u (data pg) lvd th)
              (reqs @ [(pageSize, page)])"
          using "0.prems"(1) pn Some Inr False
          by (subst pairings_loop.simps) (simp add: pairings_step_def Let_def)
        also have "\<dots> = Some (Returned (acc @ compare_matchlist_with_video_dates u (data pg) lvd th),
              reqs @ [(pageSize, page)])"
          using old by (subst pairings_loop.simps) simp
        finally show ?thesis
          using pn Some Inr by (simp add: from_pages_def)
      qed
    qed
  qed
next
  case (Suc d)
  let ?P = "\<lambda>p. get_matchlist pageSize p gameMode"
  from Suc.hyps(2) have lt: "page < n" by simp
  with Suc.prems(3) have c: "page_continues u oldest (?P page)" by simp
  then obtain pg m where pg: "?P page = Some pg"
    and m: "py_getitem (data pg) (results_returned pg - 1) = Inr m"
    and ne: "results_returned pg \<noteq> results_after pg"
    and young: "of_int oldest < u (meta_started_at m)"
    by (auto simp: page_continues_def split: option.splits sum.splits)
  let ?acc = "acc @ compare_matchlist_with_video_dates u (data pg) lvd th"
  let ?reqs = "reqs @ [(pageSize, page)]"
  have step: "pairings_loop u get_matchlist lvd gameMode pageSize th oldest om page acc reqs =
      pairings_loop u get_matchlist lvd gameMode pageSize th oldest (u (meta_started_at m))
        (Suc page) ?acc ?reqs"
    using Suc.prems(1) pg m ne
    by (subst pairings_loop.simps) (simp add: pairings_step_def Let_def)
  have d: "d = n - Suc page" using Suc.hyps(2) by simp
  have le: "Suc page \<le> n" using lt by simp
  have rest: "\<forall>p. Suc page \<le> p \<and> p < n \<longrightarrow> page_continues u oldest (?P p)"
    using Suc.prems(3) by simp
  have pn: "page \<le> n" using lt by simp
  have pages: "?acc @ from_pages u lvd th ?P [Suc page ..< Suc n] =
      acc @ from_pages u lvd th ?P [page ..< Suc n]"
    unfolding upt_from_page [OF pn] by (simp add: from_pages_def pg)
  have rq: "?reqs @ map (\<lambda>p. (pageSize, p)) [Suc page ..< Suc n] =
      reqs @ map (\<lambda>p. (pageSize, p)) [page ..< Suc n]"
    unfolding upt_from_page [OF pn] by simp
  show ?case
    unfolding step Suc.hyps(1) [OF d young le rest Suc.prems(4)] pages rq ..
qed


lemma stop_not_continues:
  assumes "response = None \<or>
     (\<exists>pg. response = Some pg \<and>
        ((\<exists>m. py_getitem (data pg) (results_returned pg - 1) = Inr m \<and>
              u (meta_started_at m) < of_int oldest)
         \<or> results_returned pg = results_after pg))"
  shows "\<not> page_continues u oldest response"
proof (cases response)
  case None
  then show ?thesis by (simp add: page_continues_def)
next
  case (Some pg)
  with assms have k: "(\<exists>m. py_getitem (data pg) (results_returned pg - 1) = Inr m \<and>
              u (meta_started_at m) < of_int oldest)
         \<or> results_returned pg = results_after pg" by simp
  show ?thesis
  proof (cases "py_getitem (data pg) (results_returned pg - 1)")
    case (Inl err)
    with Some show ?thesis by (simp add: page_continues_def)
  next
    case (Inr m)
    with k have "u (meta_started_at m) < of_int oldest \<or> results_returned pg = results_after pg"
      by simp
    with Some Inr show ?thesis by (auto simp: page_continues_def)
  qed
qed

lemma first_stopping_page:
  fixes c :: "nat \<Rightarrow> bool"
  assumes "1 \<le> k" "\<not> c k"
  shows "\<exists>n. 1 \<le> n \<and> n \<le> k \<and> (\<forall>p. 1 \<le> p \<and> p < n \<longrightarrow> c p) \<and> \<not> c n"
proof -
  let ?Q = "\<lambda>p. 1 \<le> p \<and> \<not> c p"
  define n where "n = (LEAST p. ?Q p)"
  have "?Q k" using assms by simp
  then have l: "?Q n" unfolding n_def by (rule LeastI)
  have le: "n \<le> k" unfolding n_def using \<open>?Q k\<close> by (rule Least_le)
  have "c p" if "1 \<le> p" "p < n" for p
  proof (rule ccontr)
    assume "\<not> c p"
    with that(1) have "?Q p" by simp
    then have "n \<le> p" unfolding n_def by (rule Least_le)
    with that(2) show False by simp
  qed
  with l le show ?thesis by blast
qed

lemma pairings_loop_runs_on:
  assumes run: "pairings_loop u gm lvd mode ps th oldest om page acc reqs = Some y"
  shows "\<not> (of_int oldest < om \<and> (\<forall>p. page \<le> p \<longrightarrow> page_continues u oldest (gm ps p mode)))"
proof (rule pairings_loop.raw_induct
    [where P = "\<lambda>u gm lvd mode ps th oldest om page acc reqs y.
        \<not> (of_int oldest < om \<and> (\<forall>p. page \<le> p \<longrightarrow> page_continues u oldest (gm ps p mode)))",
     OF _ run])
  fix loop :: "(string \<Rightarrow> rat) \<Rightarrow> (nat \<Rightarrow> nat \<Rightarrow> string option \<Rightarrow> matchlist option) \<Rightarrow>
      (string \<times> int) list \<Rightarrow> string option \<Rightarrow> nat \<Rightarrow> rat \<Rightarrow> int \<Rightarrow> rat \<Rightarrow> nat \<Rightarrow>
      pairing list \<Rightarrow> (nat \<times> nat) list \<Rightarrow> (pairing list outcome \<times> (nat \<times> nat) list) option"
  fix u gm lvd mode ps th oldest om page acc reqs y
  assume IH: "\<And>u gm lvd mode ps th oldest om page acc reqs y.
      loop u gm lvd mode ps th oldest om page acc reqs = Some y \<Longrightarrow>
      \<not> (of_int oldest < om \<and> (\<forall>p. page \<le> p \<longrightarrow> page_continues u oldest (gm ps p mode)))"
  assume eq: "(if of_int oldest < om
      then case pairings_step u gm lvd mode ps th page acc reqs of
           Inl result \<Rightarrow> Some result
           | Inr (oldest_match_date', page', total_pairings', requests') \<Rightarrow>
               loop u gm lvd mode ps th oldest oldest_match_date' page' total_pairings' requests'
      else Some (Returned acc, reqs)) = Some y"
  show "\<not> (of_int oldest < om \<and> (\<forall>p. page \<le> p \<longrightarrow> page_continues u oldest (gm ps p mode)))"
  proof
    assume a: "of_int oldest < om \<and> (\<forall>p. page \<le> p \<longrightarrow> page_continues u oldest (gm ps p mode))"
    then have lt: "of_int oldest < om"
      and all: "\<And>p. page \<le> p \<Longrightarrow> page_continues u oldest (gm ps p mode)"
      by blast+
    have "page_continues u oldest (gm ps page mode)" by (rule all) simp
    then obtain pg m where pg: "gm ps page mode = Some pg"
      and m: "py_getitem (data pg) (results_returned pg - 1) = Inr m"
      and ne: "results_returned pg \<noteq> results_after pg"
      and young: "of_int oldest < u (meta_started_at m)"
      by (auto simp: page_continues_def split: option.splits sum.splits)
    have step: "pairings_step u gm lvd mode ps th page acc reqs =
        Inr (u (meta_started_at m), Suc page,
             acc @ compare_matchlist_with_video_dates u (data pg) lvd th, reqs @ [(ps, page)])"
      using pg m ne by (simp add: pairings_step_def Let_def)
    from eq
    have run': "loop u gm lvd mode ps th oldest (u (meta_started_at m)) (Suc page)
        (acc @ compare_matchlist_with_video_dates u (data pg) lvd th) (reqs @ [(ps, page)]) = Some y"
      by (simp only: lt if_True step sum.case prod.case)
    have later: "\<forall>p. Suc page \<le> p \<longrightarrow> page_continues u oldest (gm ps p mode)"
    proof (intro allI impI)
      fix p assume "Suc page \<le> p"
      then have "page \<le> p" by simp
      then show "page_continues u oldest (gm ps p mode)" by (rule all)
    qed
    from IH [OF run'] young later show False by blast
  qed
qed


text \<open>
  C6: \<^verbatim>\<open>get_pairings\<close> requests the pages 1, 2, 3, ... of size \<open>pageSize\<close>, and what it
  does is fixed by the first page \<open>n\<close> after which the loop does not go on
  (\<open>page_continues\<close> fails: the request returned \<^verbatim>\<open>None\<close>, or the page has no element
  \<^verbatim>\<open>data[returned - 1]\<close>, or it reports \<^verbatim>\<open>results.returned\<close> equal to \<^verbatim>\<open>results.after\<close>,
  or the oldest local video is not older than that match). With the oldest local video
  older than the clock reading, the function is defined, it has requested exactly the
  pages 1 to \<open>n\<close> with \<open>1 \<le> n\<close>, the program exits when the request for page \<open>n\<close> returned
  \<^verbatim>\<open>None\<close>, it raises when page \<open>n\<close> has no last match to read, and otherwise it returns the
  pairings of the pages 1 to \<open>n\<close>, concatenated in page order. Such a page \<open>n \<le> k\<close> exists
  as soon as some page \<open>k\<close> is \<^verbatim>\<open>None\<close>, has a last match older than the oldest local
  video, or reports \<^verbatim>\<open>results.returned\<close> equal to \<^verbatim>\<open>results.after\<close>. When the loop goes on
  after every page, the function does not return. When the oldest local video is not
  older than the clock reading, no page is requested and the result is empty. The last
  match of a page is the one the code reads as such, \<^verbatim>\<open>data[returned - 1]\<close>, which is the
  last element of \<^verbatim>\<open>data\<close> when the page is not empty and \<^verbatim>\<open>results.returned\<close> counts its
  matches.
\<close>

theorem get_pairings_pages:
  assumes "localVideoDates \<noteq> []"
  shows "(of_int (Min (set (map snd localVideoDates))) < time_now \<and> 1 \<le> n \<and>
      (\<forall>p. 1 \<le> p \<and> p < n \<longrightarrow>
          page_continues utc_to_unix (Min (set (map snd localVideoDates)))
            (get_matchlist pageSize p gameMode)) \<and>
      \<not> page_continues utc_to_unix (Min (set (map snd localVideoDates)))
            (get_matchlist pageSize n gameMode) \<longrightarrow>
      get_pairings utc_to_unix get_matchlist time_now localVideoDates gameMode pageSize th =
        Some (case get_matchlist pageSize n gameMode of
                None \<Rightarrow> Exited
              | Some page_n \<Rightarrow>
                  (case py_getitem (data page_n) (results_returned page_n - 1) of
                     Inl err \<Rightarrow> Raised err
                   | Inr m \<Rightarrow>
                       Returned (concat (map (\<lambda>p. case get_matchlist pageSize p gameMode of
                           None \<Rightarrow> []
                         | Some page \<Rightarrow> compare_matchlist_with_video_dates utc_to_unix
                                         (data page) localVideoDates th) [1 ..< Suc n]))),
              map (\<lambda>p. (pageSize, p)) [1 ..< Suc n])) \<and>
    (1 \<le> k \<and>
      (get_matchlist pageSize k gameMode = None \<or>
       (\<exists>page_k. get_matchlist pageSize k gameMode = Some page_k \<and>
          ((\<exists>m. py_getitem (data page_k) (results_returned page_k - 1) = Inr m \<and>
                utc_to_unix (meta_started_at m) < of_int (Min (set (map snd localVideoDates))))
           \<or> results_returned page_k = results_after page_k))) \<longrightarrow>
      (\<exists>n. 1 \<le> n \<and> n \<le> k \<and>
         (\<forall>p. 1 \<le> p \<and> p < n \<longrightarrow>
            page_continues utc_to_unix (Min (set (map snd localVideoDates)))
              (get_matchlist pageSize p gameMode)) \<and>
         \<not> page_continues utc_to_unix (Min (set (map snd localVideoDates)))
              (get_matchlist pageSize n gameMode))) \<and>
    (of_int (Min (set (map snd localVideoDates))) < time_now \<and>
      (\<forall>p. 1 \<le> p \<longrightarrow>
          page_continues utc_to_unix (Min (set (map snd localVideoDates)))
            (get_matchlist pageSize p gameMode)) \<longrightarrow>
      get_pairings utc_to_unix get_matchlist time_now localVideoDates gameMode pageSize th = None) \<and>
    (\<not> of_int (Min (set (map snd localVideoDates))) < time_now \<longrightarrow>
      get_pairings utc_to_unix get_matchlist time_now localVideoDates gameMode pageSize th =
        Some (Returned [], [])) \<and>
    (\<forall>page :: matchlist.
        data page \<noteq> [] \<and> results_returned page = int (length (data page)) \<longrightarrow>
        py_getitem (data page) (results_returned page - 1) = Inr (last (data page)))"
proof -
  let ?oldest = "Min (set (map snd localVideoDates))"
  let ?P = "\<lambda>p. get_matchlist pageSize p gameMode"
  let ?c = "\<lambda>p. page_continues utc_to_unix ?oldest (?P p)"
  let ?run = "get_pairings utc_to_unix get_matchlist time_now localVideoDates gameMode pageSize th"
  have m: "py_min (map snd localVideoDates) = Inr ?oldest"
    using assms(1) by (intro py_min_Min) simp
  have run: "?run = pairings_loop utc_to_unix get_matchlist localVideoDates gameMode pageSize th
      ?oldest time_now 1 [] []"
    by (simp only: get_pairings_def m sum.case)
  have first: "?run =
        Some (case ?P n of
                None \<Rightarrow> Exited
              | Some page_n \<Rightarrow>
                  (case py_getitem (data page_n) (results_returned page_n - 1) of
                     Inl err \<Rightarrow> Raised err
                   | Inr m \<Rightarrow>
                       Returned (concat (map (\<lambda>p. case ?P p of
                           None \<Rightarrow> []
                         | Some page \<Rightarrow> compare_matchlist_with_video_dates utc_to_unix
                                         (data page) localVideoDates th) [1 ..< Suc n]))),
              map (\<lambda>p. (pageSize, p)) [1 ..< Suc n])"
    if h: "of_int ?oldest < time_now \<and> 1 \<le> n \<and> (\<forall>p. 1 \<le> p \<and> p < n \<longrightarrow> ?c p) \<and> \<not> ?c n"
  proof -
    from h have a: "of_int ?oldest < time_now" and b: "1 \<le> n"
      and c: "\<forall>p. 1 \<le> p \<and> p < n \<longrightarrow> ?c p" and d: "\<not> ?c n"
      by blast+
    show ?thesis
      unfolding run
      using pairings_loop_first_stop [where get_matchlist = get_matchlist and pageSize = pageSize
        and gameMode = gameMode and u = utc_to_unix and oldest = ?oldest and om = time_now
        and page = 1 and n = n and lvd = localVideoDates and th = th and acc = "[]"
        and reqs = "[]", OF a b c d]
      by (simp only: append_Nil)
  qed
  have second: "\<exists>n. 1 \<le> n \<and> n \<le> k \<and> (\<forall>p. 1 \<le> p \<and> p < n \<longrightarrow> ?c p) \<and> \<not> ?c n"
    if h: "1 \<le> k \<and>
      (?P k = None \<or>
       (\<exists>page_k. ?P k = Some page_k \<and>
          ((\<exists>m. py_getitem (data page_k) (results_returned page_k - 1) = Inr m \<and>
                utc_to_unix (meta_started_at m) < of_int ?oldest)
           \<or> results_returned page_k = results_after page_k)))"
  proof -
    from h have k: "1 \<le> k" by blast
    from h have "\<not> ?c k" by (intro stop_not_continues) blast
    with k show ?thesis by (rule first_stopping_page)
  qed
  have third: "?run = None"
    if h: "of_int ?oldest < time_now \<and> (\<forall>p. 1 \<le> p \<longrightarrow> ?c p)"
  proof (cases ?run)
    case None
    then show ?thesis .
  next
    case (Some y)
    then have "pairings_loop utc_to_unix get_matchlist localVideoDates gameMode pageSize th
      ?oldest time_now 1 [] [] = Some y" unfolding run .
    from pairings_loop_runs_on [OF this] h show ?thesis by blast
  qed
  have fourth: "?run = Some (Returned [], [])" if h: "\<not> of_int ?oldest < time_now"
    unfolding run using h by (subst pairings_loop.simps) simp
  have fifth: "py_getitem (data page) (results_returned page - 1) = Inr (last (data page))"
    if "data page \<noteq> [] \<and> results_returned page = int (length (data page))"
    for page :: matchlist
    using that py_getitem_last [of "data page"] by simp
  from first second third fourth fifth show ?thesis by blast
qed

theorem get_pairings_pages_witness:
  "get_pairings (\<lambda>s. if s = ''t1'' then 2000 else 1400)
        (\<lambda>size page mode.
           if page = 1 then Some \<lparr>results_returned = 1, results_after = 5, data =
             [\<lparr>meta_id = ''id1'', meta_started_at = ''t1'', meta_map_name = ''Bind'', stats_team = ''Red'',
               stats_character_name = ''Jett'', teams_red = 13, teams_blue = 4\<rparr>]\<rparr>
           else if page = 2 then Some \<lparr>results_returned = 1, results_after = 5, data =
             [\<lparr>meta_id = ''id2'', meta_started_at = ''t2'', meta_map_name = ''Haven'', stats_team = ''Blue'',
               stats_character_name = ''Sova'', teams_red = 13, teams_blue = 4\<rparr>]\<rparr>
           else None)
        3000 [(''a.mp4'', 1500)] (Some ''competitive'') 10 300
      = Some (Returned [\<lparr>video_path = ''a.mp4'', match_data =
                \<lparr>meta_id = ''id2'', meta_started_at = ''t2'', meta_map_name = ''Haven'', stats_team = ''Blue'',
                  stats_character_name = ''Sova'', teams_red = 13, teams_blue = 4\<rparr>\<rparr>],
              [(10, 1), (10, 2)])"
proof -
  let ?u = "\<lambda>s. if s = ''t1'' then (2000::rat) else 1400"
  let ?m1 = "\<lparr>meta_id = ''id1'', meta_started_at = ''t1'', meta_map_name = ''Bind'', stats_team = ''Red'',
               stats_character_name = ''Jett'', teams_red = 13, teams_blue = 4\<rparr>"
  let ?m2 = "\<lparr>meta_id = ''id2'', meta_started_at = ''t2'', meta_map_name = ''Haven'', stats_team = ''Blue'',
               stats_character_name = ''Sova'', teams_red = 13, teams_blue = 4\<rparr>"
  let ?p1 = "\<lparr>results_returned = 1, results_after = 5, data = [?m1]\<rparr>"
  let ?p2 = "\<lparr>results_returned = 1, results_after = 5, data = [?m2]\<rparr>"
  let ?gm = "\<lambda>(size::nat) (page::nat) (mode::string option).
           if page = 1 then Some ?p1 else if page = 2 then Some ?p2 else None"
  let ?lvd = "[(''a.mp4'', 1500::int)]"
  have h1: "?lvd \<noteq> []" by simp
  have old: "Min (set (map snd ?lvd)) = 1500" by simp
  have c1: "page_continues ?u 1500 (Some ?p1)"
    by (simp add: page_continues_def py_getitem_def)
  have c2: "\<not> page_continues ?u 1500 (Some ?p2)"
    by (simp add: page_continues_def py_getitem_def)
  have h: "of_int (Min (set (map snd ?lvd))) < (3000::rat) \<and> 1 \<le> (2::nat) \<and>
      (\<forall>p. 1 \<le> p \<and> p < (2::nat) \<longrightarrow>
          page_continues ?u (Min (set (map snd ?lvd))) (?gm 10 p (Some ''competitive''))) \<and>
      \<not> page_continues ?u (Min (set (map snd ?lvd))) (?gm 10 2 (Some ''competitive''))"
  proof (intro conjI allI impI)
    show "of_int (Min (set (map snd ?lvd))) < (3000::rat)" by simp
    show "1 \<le> (2::nat)" by simp
    show "\<not> page_continues ?u (Min (set (map snd ?lvd))) (?gm 10 2 (Some ''competitive''))"
      unfolding old using c2 by simp
    fix p :: nat assume "1 \<le> p \<and> p < 2"
    then have "p = 1" by simp
    then show "page_continues ?u (Min (set (map snd ?lvd))) (?gm 10 p (Some ''competitive''))"
      unfolding old using c1 by simp
  qed
  have two: "[1 ..< Suc 2] = [1, 2]" by (simp add: upt_rec)
  from get_pairings_pages [of ?lvd 3000 2 ?u ?gm 10 "Some ''competitive''" 300,
      OF h1, THEN conjunct1, THEN mp, OF h]
  show ?thesis
    unfolding two
    by (simp add: py_getitem_def compare_matchlist_with_video_dates_def Let_def)
qed


section \<open>The order of the pipeline\<close>













end
